theory Spec2Isabelle
  imports Complex_Main "HOL-Library.AList"
begin

section \<open>Manifest entries\<close>

text \<open>
  The processors of \<^verbatim>\<open>sdp/processors/modify_manifest/common.py\<close> work on manifest
  entries: Python dictionaries from field names to JSON scalars. A dictionary keeps its
  keys in insertion order, so an entry is an association list with distinct keys:
  \<^verbatim>\<open>d[k] = v\<close> is \<open>AList.update\<close> (an existing key keeps its place, a new key goes
  to the end), \<^verbatim>\<open>del d[k]\<close> and \<^verbatim>\<open>d.pop(k, None)\<close> are \<open>AList.delete\<close>, and
  \<^verbatim>\<open>k in d\<close> / \<^verbatim>\<open>d[k]\<close> read \<open>map_of\<close>.

  Field names are \<open>string\<close>s. The text a field holds is a Python \<^verbatim>\<open>str\<close>, a sequence
  of Unicode code points, because \<^verbatim>\<open>len\<close> and \<^verbatim>\<open>replace\<close> count code points and the
  Armenian punctuation lies outside one byte: \<open>pystr\<close> is a list of code points.
  A finite number, \<^verbatim>\<open>int\<close> or \<^verbatim>\<open>float\<close>, is the rational it denotes (\<open>Num\<close>); the
  floats that are not finite are \<open>PosInf\<close>, \<open>NegInf\<close> and \<open>NaN\<close>. How Python computes
  with numbers depends on their types and is made explicit where a processor computes.
\<close>

type_synonym pystr = "nat list"

definition ustr :: "string \<Rightarrow> pystr" where
  "ustr s = map of_char s"

datatype val = Str pystr | Num rat | Bool bool | PosInf | NegInf | NaN

type_synonym entry = "(string \<times> val) list"

datatype error =
    ValueError string entry
  | KeyError string
  | TypeError
  | AttributeError
  | ZeroDivisionError
  | OverflowError
  | ValueError_NaN

text \<open>
  \<open>ValueError\<close> is the error of a missing field, with the field and the entry of its
  message; \<open>ValueError_NaN\<close> is the \<^verbatim>\<open>ValueError\<close> of \<^verbatim>\<open>int(nan)\<close>.
\<close>

text \<open>
  \<^verbatim>\<open>DataEntry(data=..., metrics=...)\<close>: the envelope every per-entry processor returns
  a list of; \<^verbatim>\<open>metrics\<close> defaults to \<^verbatim>\<open>None\<close>.
\<close>

record DataEntry =
  data :: entry
  metrics :: "int option"

section \<open>CombineSources\<close>

record source_dict =
  field :: string
  origin_label :: pystr

record CombineSources =
  sources :: "source_dict list"
  target :: string
  na_indicator :: pystr

text \<open>
  The \<^verbatim>\<open>for ... else\<close> loop. \<^verbatim>\<open>data_entry.get(f, na) != na\<close> holds exactly when
  \<^verbatim>\<open>f\<close> is present with a value other than the string \<^verbatim>\<open>na\<close>; the first such source
  breaks out of the loop, and the \<^verbatim>\<open>else\<close> branch runs when no source did.
\<close>

fun combine_loop :: "source_dict list \<Rightarrow> string \<Rightarrow> pystr \<Rightarrow> entry \<Rightarrow> entry" where
  "combine_loop [] tgt na e =
     AList.update (tgt @ ''_origin'') (Str na) (AList.update tgt (Str na) e)"
| "combine_loop (sd # rest) tgt na e =
     (case map_of e (field sd) of
        None \<Rightarrow> combine_loop rest tgt na e
      | Some v \<Rightarrow>
          if v \<noteq> Str na
          then AList.update (tgt @ ''_origin'') (Str (origin_label sd)) (AList.update tgt v e)
          else combine_loop rest tgt na e)"

definition CombineSources_process_dataset_entry :: "CombineSources \<Rightarrow> entry \<Rightarrow> DataEntry list" where
  "CombineSources_process_dataset_entry cfg data_entry =
     [\<lparr>data = combine_loop (sources cfg) (target cfg) (na_indicator cfg) data_entry,
       metrics = None\<rparr>]"

section \<open>AddConstantFields\<close>

text \<open>\<^verbatim>\<open>data_entry.update(self.fields)\<close>: the configured pairs are stored one after another.\<close>

definition dict_update :: "entry \<Rightarrow> entry \<Rightarrow> entry" where
  "dict_update e other = fold (\<lambda>(k, v). AList.update k v) other e"

definition AddConstantFields_process_dataset_entry :: "entry \<Rightarrow> entry \<Rightarrow> DataEntry list" where
  "AddConstantFields_process_dataset_entry const_fields data_entry =
     [\<lparr>data = dict_update data_entry const_fields, metrics = None\<rparr>]"

section \<open>DuplicateFields and RenameFields\<close>

text \<open>
  Both walk \<^verbatim>\<open>self.duplicate_fields.items()\<close> (respectively \<^verbatim>\<open>rename_fields\<close>) in
  insertion order and work on the entry as the earlier pairs left it. A missing source
  raises \<^verbatim>\<open>ValueError\<close>, whose message holds the field name and the entry at that moment.
\<close>

fun duplicate_loop :: "(string \<times> string) list \<Rightarrow> entry \<Rightarrow> error + entry" where
  "duplicate_loop [] e = Inr e"
| "duplicate_loop ((field_src, field_tgt) # rest) e =
     (case map_of e field_src of
        None \<Rightarrow> Inl (ValueError field_src e)
      | Some v \<Rightarrow> duplicate_loop rest (AList.update field_tgt v e))"

definition DuplicateFields_process_dataset_entry ::
    "(string \<times> string) list \<Rightarrow> entry \<Rightarrow> error + DataEntry list" where
  "DuplicateFields_process_dataset_entry duplicate_fields data_entry =
     (case duplicate_loop duplicate_fields data_entry of
        Inl err \<Rightarrow> Inl err
      | Inr e \<Rightarrow> Inr [\<lparr>data = e, metrics = None\<rparr>])"

fun rename_loop :: "(string \<times> string) list \<Rightarrow> entry \<Rightarrow> error + entry" where
  "rename_loop [] e = Inr e"
| "rename_loop ((field_src, field_tgt) # rest) e =
     (case map_of e field_src of
        None \<Rightarrow> Inl (ValueError field_src e)
      | Some v \<Rightarrow> rename_loop rest (AList.delete field_src (AList.update field_tgt v e)))"

definition RenameFields_process_dataset_entry ::
    "(string \<times> string) list \<Rightarrow> entry \<Rightarrow> error + DataEntry list" where
  "RenameFields_process_dataset_entry rename_fields data_entry =
     (case rename_loop rename_fields data_entry of
        Inl err \<Rightarrow> Inl err
      | Inr e \<Rightarrow> Inr [\<lparr>data = e, metrics = None\<rparr>])"

section \<open>Python's arithmetic\<close>

text \<open>
  \<^verbatim>\<open>//\<close>, \<^verbatim>\<open>*\<close> and \<^verbatim>\<open>-\<close> compute exactly on two \<^verbatim>\<open>int\<close>s and in IEEE 754
  double precision as soon as one operand is a \<^verbatim>\<open>float\<close>. The three operations
  SplitOnFixedDuration uses are therefore a parameter, with one instance for each typing
  of its operands:
  \<^item> \<open>floor_div a b\<close> is \<^verbatim>\<open>int(a // b)\<close>,
  \<^item> \<open>multiply a n\<close> is \<^verbatim>\<open>a * n\<close> (and \<^verbatim>\<open>n * a\<close>) for an \<^verbatim>\<open>int\<close> \<open>n\<close>,
  \<^item> \<open>subtract a b\<close> is \<^verbatim>\<open>a - b\<close>.
\<close>

record arithmetic =
  floor_div :: "val \<Rightarrow> rat \<Rightarrow> error + int"
  multiply :: "rat \<Rightarrow> int \<Rightarrow> error + val"
  subtract :: "val \<Rightarrow> val \<Rightarrow> error + val"

text \<open>
  The finite number a value stands for in arithmetic: a boolean counts as 0 or 1
  (Python's \<^verbatim>\<open>bool\<close> is an \<^verbatim>\<open>int\<close>).
\<close>

fun as_number :: "val \<Rightarrow> rat option" where
  "as_number (Num x) = Some x"
| "as_number (Bool b) = Some (if b then 1 else 0)"
| "as_number v = None"

text \<open>\<^verbatim>\<open>x > 0\<close> for the result of an arithmetic operation.\<close>

fun gt_zero :: "val \<Rightarrow> bool" where
  "gt_zero (Num x) = (0 < x)"
| "gt_zero PosInf = True"
| "gt_zero v = False"

subsection \<open>Double precision\<close>

text \<open>
  A finite double is the rational it denotes. \<open>round_to_double\<close> is rounding to the
  nearest double, ties to the even significand: the significand has 53 bits, the least
  exponent of a normal number is -1022 (below it the spacing stays \<open>2 ^ -1074\<close>), and a
  result of magnitude \<open>2 ^ 1024\<close> or more is an infinity. The sign of a zero is not kept
  (Python's \<^verbatim>\<open>==\<close> does not see it).
\<close>

fun bit_length :: "int \<Rightarrow> int" where
  "bit_length n = (if n \<le> 0 then 0 else bit_length (n div 2) + 1)"

declare bit_length.simps [simp del]

definition pow2 :: "int \<Rightarrow> rat" where
  "pow2 k = (if 0 \<le> k then 2 ^ nat k else 1 / 2 ^ nat (- k))"

text \<open>The \<open>e\<close> with \<open>2 ^ e \<le> |x| < 2 ^ (e + 1)\<close>, for \<open>x\<close> other than 0.\<close>

definition binary_exponent :: "rat \<Rightarrow> int" where
  "binary_exponent x =
     (if 1 \<le> \<bar>x\<bar> then bit_length \<lfloor>\<bar>x\<bar>\<rfloor> - 1
      else - bit_length (\<lceil>1 / \<bar>x\<bar>\<rceil> - 1))"

definition round_half_even :: "rat \<Rightarrow> int" where
  "round_half_even x =
     (let f = \<lfloor>x\<rfloor>; r = x - of_int f
      in if r < 1 / 2 then f else if 1 / 2 < r then f + 1 else if even f then f else f + 1)"

definition round_to_double :: "rat \<Rightarrow> val" where
  "round_to_double x =
     (if x = 0 then Num 0
      else
        let q = pow2 (max (binary_exponent x) (- 1022) - 52);
            r = of_int (round_half_even (x / q)) * q
        in if 2 ^ 1024 \<le> r then PosInf else if r \<le> - (2 ^ 1024) then NegInf else Num r)"

text \<open>
  An operand of a float operation: a float is itself, an \<^verbatim>\<open>int\<close> is converted to the
  nearest double or raises \<^verbatim>\<open>OverflowError\<close> when it is too large, a string raises
  \<^verbatim>\<open>TypeError\<close>.
\<close>

definition to_double :: "rat \<Rightarrow> error + rat" where
  "to_double x = (case round_to_double x of Num r \<Rightarrow> Inr r | _ \<Rightarrow> Inl OverflowError)"

fun float_operand :: "val \<Rightarrow> error + val" where
  "float_operand (Str s) = Inl TypeError"
| "float_operand (Num x) = (case to_double x of Inl err \<Rightarrow> Inl err | Inr r \<Rightarrow> Inr (Num r))"
| "float_operand (Bool b) = Inr (Num (if b then 1 else 0))"
| "float_operand v = Inr v"

text \<open>Subtraction of floats, the infinities and NaN included.\<close>

fun float_sub :: "val \<Rightarrow> val \<Rightarrow> val" where
  "float_sub (Num x) (Num y) = round_to_double (x - y)"
| "float_sub NaN b = NaN"
| "float_sub a NaN = NaN"
| "float_sub PosInf PosInf = NaN"
| "float_sub NegInf NegInf = NaN"
| "float_sub PosInf b = PosInf"
| "float_sub NegInf b = NegInf"
| "float_sub a PosInf = NegInf"
| "float_sub a NegInf = PosInf"
| "float_sub a b = NaN"

text \<open>
  \<^verbatim>\<open>int(vx // wx)\<close> for finite doubles and \<open>wx\<close> other than 0, as CPython computes
  it: \<^verbatim>\<open>mod = fmod(vx, wx)\<close> is exact; \<^verbatim>\<open>div = (vx - mod) / wx\<close> is rounded twice;
  \<^verbatim>\<open>div\<close> is lowered by 1 when \<^verbatim>\<open>mod\<close> is not zero and its sign differs from that
  of \<^verbatim>\<open>wx\<close>; the quotient is \<^verbatim>\<open>floor(div)\<close>, raised by 1 when \<^verbatim>\<open>div\<close> exceeds
  it by more than a half. \<^verbatim>\<open>int\<close> of an infinity raises \<^verbatim>\<open>OverflowError\<close>, of a
  NaN \<^verbatim>\<open>ValueError\<close>.
\<close>

definition fmod :: "rat \<Rightarrow> rat \<Rightarrow> rat" where
  "fmod vx wx =
     (let q = vx / wx
      in vx - of_int (if 0 \<le> q then \<lfloor>q\<rfloor> else \<lceil>q\<rceil>) * wx)"

definition finite_floor_div :: "rat \<Rightarrow> rat \<Rightarrow> error + int" where
  "finite_floor_div vx wx =
     (let fm = fmod vx wx;
          quot = (case round_to_double (vx - fm) of
                    Num t \<Rightarrow> round_to_double (t / wx)
                  | v \<Rightarrow> v);
          quot = (if fm \<noteq> 0 \<and> ((wx < 0) \<noteq> (fm < 0)) then float_sub quot (Num 1) else quot)
      in case quot of
           Num d \<Rightarrow>
             if d \<noteq> 0
             then
               let floordiv = of_int \<lfloor>d\<rfloor>
               in if (case float_sub (Num d) (Num floordiv) of Num r \<Rightarrow> 1 / 2 < r | _ \<Rightarrow> False)
                  then (case round_to_double (floordiv + 1) of
                          Num r \<Rightarrow> Inr \<lfloor>r\<rfloor>
                        | _ \<Rightarrow> Inl OverflowError)
                  else Inr \<lfloor>d\<rfloor>
             else Inr 0
         | NaN \<Rightarrow> Inl ValueError_NaN
         | _ \<Rightarrow> Inl OverflowError)"

text \<open>
  The float operations on values: both operands are converted, the left one first; a
  zero divisor raises \<^verbatim>\<open>ZeroDivisionError\<close>; a dividend that is not finite gives NaN,
  which \<^verbatim>\<open>int\<close> refuses.
\<close>

definition float_floor_div :: "val \<Rightarrow> rat \<Rightarrow> error + int" where
  "float_floor_div a b =
     (case float_operand a of
        Inl err \<Rightarrow> Inl err
      | Inr v \<Rightarrow>
          (case to_double b of
             Inl err \<Rightarrow> Inl err
           | Inr wx \<Rightarrow>
               if wx = 0 then Inl ZeroDivisionError
               else (case v of Num vx \<Rightarrow> finite_floor_div vx wx | _ \<Rightarrow> Inl ValueError_NaN)))"


definition float_subtract :: "val \<Rightarrow> val \<Rightarrow> error + val" where
  "float_subtract a b =
     (case float_operand a of
        Inl err \<Rightarrow> Inl err
      | Inr x \<Rightarrow>
          (case float_operand b of
             Inl err \<Rightarrow> Inl err
           | Inr y \<Rightarrow> Inr (float_sub x y)))"

subsection \<open>The three typings\<close>


text \<open>
  \<open>exact_arith\<close>: the duration and \<^verbatim>\<open>segment_duration\<close> are \<^verbatim>\<open>int\<close>s, which Python
  computes with exactly; on all finite numbers it is arithmetic without rounding. A
  string or a float that is not finite is handled as above.
\<close>

definition exact_floor_div :: "val \<Rightarrow> rat \<Rightarrow> error + int" where
  "exact_floor_div a b =
     (case as_number a of
        Some x \<Rightarrow> if b = 0 then Inl ZeroDivisionError else Inr \<lfloor>x / b\<rfloor>
      | None \<Rightarrow> float_floor_div a b)"

definition exact_multiply :: "rat \<Rightarrow> int \<Rightarrow> error + val" where
  "exact_multiply a n = Inr (Num (a * of_int n))"

definition exact_subtract :: "val \<Rightarrow> val \<Rightarrow> error + val" where
  "exact_subtract a b =
     (case (as_number a, as_number b) of
        (Some x, Some y) \<Rightarrow> Inr (Num (x - y))
      | _ \<Rightarrow> float_subtract a b)"

definition exact_arith :: arithmetic where
  "exact_arith =
     \<lparr>floor_div = exact_floor_div, multiply = exact_multiply, subtract = exact_subtract\<rparr>"


section \<open>SplitOnFixedDuration\<close>

record SplitOnFixedDuration =
  segment_duration :: rat
  drop_last :: bool
  drop_text :: bool

text \<open>
  One emitted segment: \<^verbatim>\<open>data_entry.copy()\<close>, then \<^verbatim>\<open>duration\<close> and \<^verbatim>\<open>offset\<close>
  are stored and, under \<^verbatim>\<open>drop_text\<close>, \<^verbatim>\<open>pop("text", None)\<close>.
\<close>

definition modified_entry :: "SplitOnFixedDuration \<Rightarrow> entry \<Rightarrow> val \<Rightarrow> val \<Rightarrow> entry" where
  "modified_entry cfg data_entry dur off =
     (let m = AList.update ''offset'' off (AList.update ''duration'' dur data_entry)
      in if drop_text cfg then AList.delete ''text'' m else m)"

text \<open>
  The loop over \<^verbatim>\<open>range(total_segments)\<close>: each segment gets the duration
  \<^verbatim>\<open>segment_duration\<close> and the offset \<^verbatim>\<open>segment_idx * segment_duration\<close>.
\<close>

fun main_segments ::
    "arithmetic \<Rightarrow> SplitOnFixedDuration \<Rightarrow> entry \<Rightarrow> nat list \<Rightarrow> error + DataEntry list" where
  "main_segments ar cfg data_entry [] = Inr []"
| "main_segments ar cfg data_entry (segment_idx # rest) =
     (case multiply ar (segment_duration cfg) (int segment_idx) of
        Inl err \<Rightarrow> Inl err
      | Inr off \<Rightarrow>
          (case main_segments ar cfg data_entry rest of
             Inl err \<Rightarrow> Inl err
           | Inr output \<Rightarrow>
               Inr (\<lparr>data = modified_entry cfg data_entry (Num (segment_duration cfg)) off,
                     metrics = None\<rparr> # output)))"

text \<open>
  \<^verbatim>\<open>process_dataset_entry\<close>. \<^verbatim>\<open>range\<close> and \<^verbatim>\<open>[None] * n\<close> are empty for a negative
  count, while the remainder is computed from the count as it is.
\<close>

definition SplitOnFixedDuration_process_dataset_entry ::
    "arithmetic \<Rightarrow> SplitOnFixedDuration \<Rightarrow> entry \<Rightarrow> error + DataEntry list" where
  "SplitOnFixedDuration_process_dataset_entry ar cfg data_entry =
     (case map_of data_entry ''duration'' of
        None \<Rightarrow> Inl (KeyError ''duration'')
      | Some total_duration \<Rightarrow>
          (case floor_div ar total_duration (segment_duration cfg) of
             Inl err \<Rightarrow> Inl err
           | Inr total_segments \<Rightarrow>
               (case main_segments ar cfg data_entry [0..<nat total_segments] of
                  Inl err \<Rightarrow> Inl err
                | Inr output \<Rightarrow>
                    (case multiply ar (segment_duration cfg) total_segments of
                       Inl err \<Rightarrow> Inl err
                     | Inr product \<Rightarrow>
                         (case subtract ar total_duration product of
                            Inl err \<Rightarrow> Inl err
                          | Inr remainder \<Rightarrow>
                              if \<not> drop_last cfg \<and> gt_zero remainder
                              then Inr (output @
                                     [\<lparr>data = modified_entry cfg data_entry remainder product,
                                       metrics = None\<rparr>])
                              else Inr output)))))"

section \<open>ChangeToRelativePath\<close>

text \<open>
  \<^verbatim>\<open>os.path.relpath\<close> belongs to the Python library; it is a parameter of the model and
  may raise.
\<close>

definition ChangeToRelativePath_process_dataset_entry ::
    "(pystr \<Rightarrow> pystr \<Rightarrow> error + pystr) \<Rightarrow> pystr \<Rightarrow> entry \<Rightarrow> error + DataEntry list" where
  "ChangeToRelativePath_process_dataset_entry relpath base_dir data_entry =
     (case map_of data_entry ''audio_filepath'' of
        None \<Rightarrow> Inl (KeyError ''audio_filepath'')
      | Some (Str p) \<Rightarrow>
          (case relpath p base_dir of
             Inl err \<Rightarrow> Inl err
           | Inr r \<Rightarrow> Inr [\<lparr>data = AList.update ''audio_filepath'' (Str r) data_entry,
                           metrics = None\<rparr>])
      | Some _ \<Rightarrow> Inl TypeError)"

section \<open>RemoveExtraSymbols\<close>

text \<open>
  \<^verbatim>\<open>str.replace(old, new)\<close>: the occurrences of \<^verbatim>\<open>old\<close> are replaced from left to
  right without overlap; an empty \<^verbatim>\<open>old\<close> matches before every code point and at the end.
\<close>

fun replace :: "pystr \<Rightarrow> pystr \<Rightarrow> pystr \<Rightarrow> pystr" where
  "replace [] old new = (if old = [] then new else [])"
| "replace (c # cs) old new =
     (if old = [] then new @ c # replace cs old new
      else if take (length old) (c # cs) = old
           then new @ replace (drop (length old) (c # cs)) old new
           else c # replace cs old new)"

text \<open>
  The loop of \<^verbatim>\<open>clear_text\<close> over the code points of \<^verbatim>\<open>ignore\<close>. \<^verbatim>\<open>str.upper\<close> is a
  parameter: it maps one code point to a string, which may be longer than one code point.
\<close>

fun ignore_loop :: "(nat \<Rightarrow> pystr) \<Rightarrow> pystr \<Rightarrow> pystr \<Rightarrow> pystr" where
  "ignore_loop upper [] text = text"
| "ignore_loop upper (x # rest) text =
     ignore_loop upper rest (replace (replace text [x] []) (upper x) [])"

definition clear_text :: "(nat \<Rightarrow> pystr) \<Rightarrow> pystr \<Rightarrow> pystr \<Rightarrow> pystr \<Rightarrow> pystr" where
  "clear_text upper text ignore lang =
     ignore_loop upper ignore
       (if lang = ustr ''armenian''
        then replace (replace text (ustr ''.'') [8228]) (ustr '':'') [1417]
        else text)"

record RemoveExtraSymbols =
  ignore_symbols :: pystr
  target_language :: pystr
  text_key :: string

text \<open>
  \<^verbatim>\<open>process_dataset_entry\<close> computes the cleaned text and the number of removed symbols
  and returns \<^verbatim>\<open>DataEntry(data=data_entry, metrics=n_removed_symbols)\<close>. A value that is
  not a string has no \<^verbatim>\<open>replace\<close> (\<^verbatim>\<open>AttributeError\<close>) or, when no replacement is
  attempted, no \<^verbatim>\<open>len\<close> (\<^verbatim>\<open>TypeError\<close>).
\<close>

definition RemoveExtraSymbols_process_dataset_entry ::
    "(nat \<Rightarrow> pystr) \<Rightarrow> RemoveExtraSymbols \<Rightarrow> entry \<Rightarrow> error + DataEntry list" where
  "RemoveExtraSymbols_process_dataset_entry upper cfg data_entry =
     (case map_of data_entry (text_key cfg) of
        None \<Rightarrow> Inl (KeyError (text_key cfg))
      | Some (Str original_text) \<Rightarrow>
          (let cleaned_text = clear_text upper original_text (ignore_symbols cfg) (target_language cfg);
               n_removed_symbols = int (length original_text) - int (length cleaned_text)
           in Inr [\<lparr>data = data_entry, metrics = Some n_removed_symbols\<rparr>])
      | Some _ \<Rightarrow>
          (if target_language cfg = ustr ''armenian'' \<or> ignore_symbols cfg \<noteq> []
           then Inl AttributeError else Inl TypeError))"

text \<open>
  \<^verbatim>\<open>str.upper\<close> on the ASCII range, where it is known in full: a lower-case Latin letter
  goes to its capital and every other ASCII code point to itself. Beyond ASCII the
  code point is returned as it is; the concrete inputs below stay within ASCII.
\<close>

definition ascii_upper :: "nat \<Rightarrow> pystr" where
  "ascii_upper c = [if 97 \<le> c \<and> c \<le> 122 then c - 32 else c]"

section \<open>CreateTokenizer\<close>

text \<open>
  The constructor arguments the command depends on. The operating system is a parameter:
  \<^verbatim>\<open>os.path.join\<close>, \<^verbatim>\<open>os.path.exists\<close> and \<^verbatim>\<open>sys.executable\<close>.
\<close>

record CreateTokenizer =
  data_folder :: string
  nemo_repo_path :: string
  vocab_size :: int
  lower_case :: bool
  nemo_executable :: string
  tokenizer :: string
  spe_type :: string

record os_env =
  path_join :: "string \<Rightarrow> string \<Rightarrow> string"
  path_exists :: "string \<Rightarrow> bool"
  sys_executable :: string

text \<open>\<^verbatim>\<open>str(x)\<close> of an integer: its decimal digits, with a minus sign when negative.\<close>

fun str_nat :: "nat \<Rightarrow> string" where
  "str_nat n = (if n < 10 then [char_of (48 + n)]
                else str_nat (n div 10) @ [char_of (48 + n mod 10)])"

declare str_nat.simps [simp del]

definition str_int :: "int \<Rightarrow> string" where
  "str_int i = (if i < 0 then ''-'' @ str_nat (nat (- i)) else str_nat (nat i))"

text \<open>
  The command list of \<^verbatim>\<open>get_command_to_run\<close>, with \<^verbatim>\<open>script_path\<close> and the
  replacement of a missing \<^verbatim>\<open>nemo_executable\<close> from the constructor. Writing the corpus
  file, which the function does before it builds the list, is input and output and is
  not part of the model; \<^verbatim>\<open>str(x)\<close> leaves the strings of the list as they are.
\<close>

definition get_command_to_run :: "os_env \<Rightarrow> CreateTokenizer \<Rightarrow> string list" where
  "get_command_to_run env cfg =
     (let script_path = path_join env (nemo_repo_path cfg)
                          ''scripts/tokenizers/process_asr_text_tokenizer.py'';
          executable = (if \<not> path_exists env (nemo_executable cfg)
                        then sys_executable env else nemo_executable cfg);
          document_path = path_join env (path_join env (data_folder cfg) ''text_corpus'')
                            ''document.txt'';
          command = [executable, script_path,
                     ''--data_file'', document_path,
                     ''--vocab_size'', str_int (vocab_size cfg),
                     ''--data_root'', data_folder cfg,
                     ''--tokenizer'', tokenizer cfg,
                     ''--spe_type'', spe_type cfg]
      in if lower_case cfg then command @ [''--no_lower_case''] else command)"

section \<open>CombineSources: the first available source wins\<close>

lemma combine_loop_skip:
  "\<forall>s\<in>set pre. map_of e (field s) = None \<or> map_of e (field s) = Some (Str na) \<Longrightarrow>
   combine_loop (pre @ rest) tgt na e = combine_loop rest tgt na e"
  by (induction pre) auto

lemma combine_loop_winner:
  assumes "\<forall>s\<in>set pre. map_of e (field s) = None \<or> map_of e (field s) = Some (Str na)"
    and "map_of e (field sd) = Some v" and "v \<noteq> Str na"
  shows "combine_loop (pre @ sd # post) tgt na e =
         AList.update (tgt @ ''_origin'') (Str (origin_label sd)) (AList.update tgt v e)"
  using assms by (simp add: combine_loop_skip)

lemma combine_loop_none:
  assumes "\<forall>s\<in>set srcs. map_of e (field s) = None \<or> map_of e (field s) = Some (Str na)"
  shows "combine_loop srcs tgt na e =
         AList.update (tgt @ ''_origin'') (Str na) (AList.update tgt (Str na) e)"
  using combine_loop_skip [OF assms, of "[]" tgt] by simp

text \<open>
  Claim C3. Let the sources before \<open>sd\<close> in the configured order be absent from the entry
  or hold the sentinel, and let \<open>sd\<close> be present with another value \<open>v\<close>: then the one
  returned entry has \<open>v\<close> in the target field and the origin label of \<open>sd\<close> in the
  \<open>_origin\<close> field. An absent source and one holding the sentinel are skipped alike.
  When every source is absent or holds the sentinel, both fields get the sentinel. The
  entry \<^verbatim>\<open>{"text_pc": "n/a"}\<close> with the single source \<^verbatim>\<open>text_pc\<close>/\<^verbatim>\<open>original\<close>
  and target \<^verbatim>\<open>text\<close> gets \<^verbatim>\<open>text = "n/a"\<close> and \<^verbatim>\<open>text_origin = "n/a"\<close>.
\<close>

theorem CombineSources_first_present_source_wins:
  "(sources cfg = pre @ sd # post \<and>
    (\<forall>s\<in>set pre. map_of e (field s) = None \<or>
                   map_of e (field s) = Some (Str (na_indicator cfg))) \<and>
    map_of e (field sd) = Some v \<and> v \<noteq> Str (na_indicator cfg) \<longrightarrow>
      (\<exists>out. CombineSources_process_dataset_entry cfg e = [\<lparr>data = out, metrics = None\<rparr>] \<and>
             map_of out (target cfg) = Some v \<and>
             map_of out (target cfg @ ''_origin'') = Some (Str (origin_label sd)))) \<and>
   ((\<forall>s\<in>set (sources cfg). map_of e (field s) = None \<or>
                             map_of e (field s) = Some (Str (na_indicator cfg))) \<longrightarrow>
      (\<exists>out. CombineSources_process_dataset_entry cfg e = [\<lparr>data = out, metrics = None\<rparr>] \<and>
             map_of out (target cfg) = Some (Str (na_indicator cfg)) \<and>
             map_of out (target cfg @ ''_origin'') = Some (Str (na_indicator cfg)))) \<and>
   CombineSources_process_dataset_entry
     \<lparr>sources = [\<lparr>field = ''text_pc'', origin_label = ustr ''original''\<rparr>],
      target = ''text'', na_indicator = ustr ''n/a''\<rparr>
     [(''text_pc'', Str (ustr ''n/a''))]
   = [\<lparr>data = [(''text_pc'', Str (ustr ''n/a'')), (''text'', Str (ustr ''n/a'')),
               (''text_origin'', Str (ustr ''n/a''))],
       metrics = None\<rparr>]"
proof (intro conjI impI)
  assume "sources cfg = pre @ sd # post \<and>
    (\<forall>s\<in>set pre. map_of e (field s) = None \<or>
                   map_of e (field s) = Some (Str (na_indicator cfg))) \<and>
    map_of e (field sd) = Some v \<and> v \<noteq> Str (na_indicator cfg)"
  then have "combine_loop (sources cfg) (target cfg) (na_indicator cfg) e =
     AList.update (target cfg @ ''_origin'') (Str (origin_label sd))
       (AList.update (target cfg) v e)"
    by (simp add: combine_loop_winner)
  then show "\<exists>out. CombineSources_process_dataset_entry cfg e = [\<lparr>data = out, metrics = None\<rparr>] \<and>
             map_of out (target cfg) = Some v \<and>
             map_of out (target cfg @ ''_origin'') = Some (Str (origin_label sd))"
    by (simp add: CombineSources_process_dataset_entry_def update_conv')
next
  assume "\<forall>s\<in>set (sources cfg). map_of e (field s) = None \<or>
                             map_of e (field s) = Some (Str (na_indicator cfg))"
  then have "combine_loop (sources cfg) (target cfg) (na_indicator cfg) e =
     AList.update (target cfg @ ''_origin'') (Str (na_indicator cfg))
       (AList.update (target cfg) (Str (na_indicator cfg)) e)"
    by (rule combine_loop_none)
  then show "\<exists>out. CombineSources_process_dataset_entry cfg e = [\<lparr>data = out, metrics = None\<rparr>] \<and>
             map_of out (target cfg) = Some (Str (na_indicator cfg)) \<and>
             map_of out (target cfg @ ''_origin'') = Some (Str (na_indicator cfg))"
    by (simp add: CombineSources_process_dataset_entry_def update_conv')
next
  show "CombineSources_process_dataset_entry
     \<lparr>sources = [\<lparr>field = ''text_pc'', origin_label = ustr ''original''\<rparr>],
      target = ''text'', na_indicator = ustr ''n/a''\<rparr>
     [(''text_pc'', Str (ustr ''n/a''))]
   = [\<lparr>data = [(''text_pc'', Str (ustr ''n/a'')), (''text'', Str (ustr ''n/a'')),
               (''text_origin'', Str (ustr ''n/a''))],
       metrics = None\<rparr>]"
    by (simp add: CombineSources_process_dataset_entry_def)
qed

text \<open>
  The theorem at \<^verbatim>\<open>{"text_pc": "n/a", "text_pc_pred": "hi"}\<close> with the sources
  \<^verbatim>\<open>text_pc\<close>/\<^verbatim>\<open>original\<close> and \<^verbatim>\<open>text_pc_pred\<close>/\<^verbatim>\<open>synthetic\<close>: the first source
  holds the sentinel and the second one wins; and at \<^verbatim>\<open>{"text_pc": "n/a"}\<close>, where no
  source is available.
\<close>

theorem CombineSources_first_present_source_wins_witness:
  "map_of [(''text_pc'', Str (ustr ''n/a'')), (''text_pc_pred'', Str (ustr ''hi''))] ''text_pc''
     = Some (Str (ustr ''n/a'')) \<and>
   map_of [(''text_pc'', Str (ustr ''n/a'')), (''text_pc_pred'', Str (ustr ''hi''))] ''text_pc_pred''
     = Some (Str (ustr ''hi'')) \<and>
   Str (ustr ''hi'') \<noteq> Str (ustr ''n/a'') \<and>
   (\<exists>out. CombineSources_process_dataset_entry
       \<lparr>sources = [\<lparr>field = ''text_pc'', origin_label = ustr ''original''\<rparr>,
                   \<lparr>field = ''text_pc_pred'', origin_label = ustr ''synthetic''\<rparr>],
        target = ''text'', na_indicator = ustr ''n/a''\<rparr>
       [(''text_pc'', Str (ustr ''n/a'')), (''text_pc_pred'', Str (ustr ''hi''))]
       = [\<lparr>data = out, metrics = None\<rparr>] \<and>
     map_of out ''text'' = Some (Str (ustr ''hi'')) \<and>
     map_of out ''text_origin'' = Some (Str (ustr ''synthetic''))) \<and>
   (\<exists>out. CombineSources_process_dataset_entry
       \<lparr>sources = [\<lparr>field = ''text_pc'', origin_label = ustr ''original''\<rparr>,
                   \<lparr>field = ''text_pc_pred'', origin_label = ustr ''synthetic''\<rparr>],
        target = ''text'', na_indicator = ustr ''n/a''\<rparr>
       [(''text_pc'', Str (ustr ''n/a''))]
       = [\<lparr>data = out, metrics = None\<rparr>] \<and>
     map_of out ''text'' = Some (Str (ustr ''n/a'')) \<and>
     map_of out ''text_origin'' = Some (Str (ustr ''n/a'')))"
  using CombineSources_first_present_source_wins
    [of "\<lparr>sources = [\<lparr>field = ''text_pc'', origin_label = ustr ''original''\<rparr>,
                     \<lparr>field = ''text_pc_pred'', origin_label = ustr ''synthetic''\<rparr>],
          target = ''text'', na_indicator = ustr ''n/a''\<rparr>"
        "[\<lparr>field = ''text_pc'', origin_label = ustr ''original''\<rparr>]"
        "\<lparr>field = ''text_pc_pred'', origin_label = ustr ''synthetic''\<rparr>"
        "[]"
        "[(''text_pc'', Str (ustr ''n/a'')), (''text_pc_pred'', Str (ustr ''hi''))]"
        "Str (ustr ''hi'')"]
    CombineSources_first_present_source_wins
    [of "\<lparr>sources = [\<lparr>field = ''text_pc'', origin_label = ustr ''original''\<rparr>,
                     \<lparr>field = ''text_pc_pred'', origin_label = ustr ''synthetic''\<rparr>],
          target = ''text'', na_indicator = ustr ''n/a''\<rparr>"
        "[]" "\<lparr>field = ''text_pc'', origin_label = ustr ''original''\<rparr>"
        "[\<lparr>field = ''text_pc_pred'', origin_label = ustr ''synthetic''\<rparr>]"
        "[(''text_pc'', Str (ustr ''n/a''))]"
        "Str (ustr ''n/a'')"]
  by (simp add: ustr_def)

section \<open>CombineSources: applying it again\<close>

text \<open>
  Claim C9 as stated fails: with the sources \<^verbatim>\<open>text\<close>/\<^verbatim>\<open>no_pc\<close> and
  \<^verbatim>\<open>text_pc\<close>/\<^verbatim>\<open>original\<close>, target \<^verbatim>\<open>text\<close>, the entry \<^verbatim>\<open>{"text_pc": "hi"}\<close>
  gets \<^verbatim>\<open>text_origin = "original"\<close> from the first run, and the second run, which now
  finds the freshly written \<^verbatim>\<open>text\<close> first, changes it to \<^verbatim>\<open>"no_pc"\<close>.
\<close>

theorem CombineSources_reapplied_counterexample:
  "CombineSources_process_dataset_entry
     \<lparr>sources = [\<lparr>field = ''text'', origin_label = ustr ''no_pc''\<rparr>,
                 \<lparr>field = ''text_pc'', origin_label = ustr ''original''\<rparr>],
      target = ''text'', na_indicator = ustr ''n/a''\<rparr>
     [(''text_pc'', Str (ustr ''hi''))]
   = [\<lparr>data = [(''text_pc'', Str (ustr ''hi'')), (''text'', Str (ustr ''hi'')),
               (''text_origin'', Str (ustr ''original''))],
       metrics = None\<rparr>] \<and>
   CombineSources_process_dataset_entry
     \<lparr>sources = [\<lparr>field = ''text'', origin_label = ustr ''no_pc''\<rparr>,
                 \<lparr>field = ''text_pc'', origin_label = ustr ''original''\<rparr>],
      target = ''text'', na_indicator = ustr ''n/a''\<rparr>
     [(''text_pc'', Str (ustr ''hi'')), (''text'', Str (ustr ''hi'')),
      (''text_origin'', Str (ustr ''original''))]
   = [\<lparr>data = [(''text_pc'', Str (ustr ''hi'')), (''text'', Str (ustr ''hi'')),
               (''text_origin'', Str (ustr ''no_pc''))],
       metrics = None\<rparr>] \<and>
   ustr ''no_pc'' \<noteq> ustr ''original''"
  by (simp add: CombineSources_process_dataset_entry_def ustr_def)

text \<open>
  Claim C9, amended. Let \<open>sd\<close> be the source that wins on the entry \<open>e\<close> (the sources
  before it are absent or hold the sentinel, \<open>sd\<close> holds another value \<open>v\<close>), let no
  source before \<open>sd\<close> be the target field or the \<open>_origin\<close> field, and let \<open>sd\<close> not
  be the \<open>_origin\<close> field. Then the first run stores \<open>v\<close> in the target field, and
  running the processor again on the returned entry returns that entry unchanged.
\<close>

theorem CombineSources_reapplied_unchanged:
  assumes src: "sources cfg = pre @ sd # post"
    and skip: "\<forall>s\<in>set pre. map_of e (field s) = None \<or>
                            map_of e (field s) = Some (Str (na_indicator cfg))"
    and win: "map_of e (field sd) = Some v" "v \<noteq> Str (na_indicator cfg)"
    and pre_fresh: "\<forall>s\<in>set pre. field s \<noteq> target cfg \<and> field s \<noteq> target cfg @ ''_origin''"
    and sd_fresh: "field sd \<noteq> target cfg @ ''_origin''"
    and first: "CombineSources_process_dataset_entry cfg e = [r]"
  shows "map_of (data r) (target cfg) = Some v \<and>
         CombineSources_process_dataset_entry cfg (data r) = [r]"
proof -
  let ?t = "target cfg" and ?o = "target cfg @ ''_origin''" and ?na = "na_indicator cfg"
  let ?e' = "AList.update ?o (Str (origin_label sd)) (AList.update ?t v e)"
  have r: "r = \<lparr>data = ?e', metrics = None\<rparr>"
    using first combine_loop_winner [OF skip win] src
    by (simp add: CombineSources_process_dataset_entry_def)
  have lookup: "map_of ?e' k = (if k = ?o then Some (Str (origin_label sd))
                               else if k = ?t then Some v else map_of e k)" for k
    by (simp add: update_conv')
  have skip': "\<forall>s\<in>set pre. map_of ?e' (field s) = None \<or> map_of ?e' (field s) = Some (Str ?na)"
    using skip pre_fresh by (simp add: lookup)
  have win': "map_of ?e' (field sd) = Some v"
    using win sd_fresh by (simp add: lookup)
  have "combine_loop (pre @ sd # post) ?t ?na ?e' =
        AList.update ?o (Str (origin_label sd)) (AList.update ?t v ?e')"
    using skip' win' win(2) by (rule combine_loop_winner)
  also have "AList.update ?t v ?e' = ?e'"
    by (rule update_triv) (simp add: lookup)
  also have "AList.update ?o (Str (origin_label sd)) ?e' = ?e'"
    by (rule update_triv) (simp add: lookup)
  finally show ?thesis
    using r src by (simp add: CombineSources_process_dataset_entry_def lookup)
qed

text \<open>
  The theorem at the sources \<^verbatim>\<open>text_pc\<close>/\<^verbatim>\<open>original\<close>, \<^verbatim>\<open>text\<close>/\<^verbatim>\<open>no_pc\<close> (the
  target last, as in the class's own example) and the entry \<^verbatim>\<open>{"text_pc": "hi"}\<close>.
\<close>

theorem CombineSources_reapplied_unchanged_witness:
  "CombineSources_process_dataset_entry
     \<lparr>sources = [\<lparr>field = ''text_pc'', origin_label = ustr ''original''\<rparr>,
                 \<lparr>field = ''text'', origin_label = ustr ''no_pc''\<rparr>],
      target = ''text'', na_indicator = ustr ''n/a''\<rparr>
     [(''text_pc'', Str (ustr ''hi''))]
   = [\<lparr>data = [(''text_pc'', Str (ustr ''hi'')), (''text'', Str (ustr ''hi'')),
               (''text_origin'', Str (ustr ''original''))],
       metrics = None\<rparr>] \<and>
   CombineSources_process_dataset_entry
     \<lparr>sources = [\<lparr>field = ''text_pc'', origin_label = ustr ''original''\<rparr>,
                 \<lparr>field = ''text'', origin_label = ustr ''no_pc''\<rparr>],
      target = ''text'', na_indicator = ustr ''n/a''\<rparr>
     [(''text_pc'', Str (ustr ''hi'')), (''text'', Str (ustr ''hi'')),
      (''text_origin'', Str (ustr ''original''))]
   = [\<lparr>data = [(''text_pc'', Str (ustr ''hi'')), (''text'', Str (ustr ''hi'')),
               (''text_origin'', Str (ustr ''original''))],
       metrics = None\<rparr>]"
  using CombineSources_reapplied_unchanged
    [of "\<lparr>sources = [\<lparr>field = ''text_pc'', origin_label = ustr ''original''\<rparr>,
                     \<lparr>field = ''text'', origin_label = ustr ''no_pc''\<rparr>],
          target = ''text'', na_indicator = ustr ''n/a''\<rparr>"
        "[]" "\<lparr>field = ''text_pc'', origin_label = ustr ''original''\<rparr>"
        "[\<lparr>field = ''text'', origin_label = ustr ''no_pc''\<rparr>]"
        "[(''text_pc'', Str (ustr ''hi''))]" "Str (ustr ''hi'')"
        "\<lparr>data = [(''text_pc'', Str (ustr ''hi'')), (''text'', Str (ustr ''hi'')),
                  (''text_origin'', Str (ustr ''original''))],
          metrics = None\<rparr>"]
  by (simp add: CombineSources_process_dataset_entry_def ustr_def)

section \<open>DuplicateFields and RenameFields: the loops\<close>

lemma dom_delete: "fst ` set (AList.delete k al) = fst ` set al - {k}"
proof -
  have "fst ` set (AList.delete k al) = set (map fst (AList.delete k al))" by simp
  also have "\<dots> = set (map fst al) - {k}" by (simp only: delete_keys set_removeAll)
  finally show ?thesis by simp
qed

text \<open>Fields that no pair names keep their value.\<close>

lemma duplicate_loop_frame:
  "duplicate_loop ps e = Inr out \<Longrightarrow> k \<notin> snd ` set ps \<Longrightarrow> map_of out k = map_of e k"
proof (induction ps arbitrary: e)
  case Nil
  then show ?case by simp
next
  case (Cons p qs)
  obtain s t where p: "p = (s, t)" by (cases p)
  from Cons.prems p obtain v where v: "map_of e s = Some v"
    and rest: "duplicate_loop qs (AList.update t v e) = Inr out"
    by (auto split: option.splits)
  from Cons.prems(2) p have "k \<noteq> t" "k \<notin> snd ` set qs" by auto
  with Cons.IH [OF rest] show ?case by (simp add: update_conv')
qed

lemma rename_loop_frame:
  "rename_loop ps e = Inr out \<Longrightarrow> k \<notin> fst ` set ps \<Longrightarrow> k \<notin> snd ` set ps \<Longrightarrow>
   map_of out k = map_of e k"
proof (induction ps arbitrary: e)
  case Nil
  then show ?case by simp
next
  case (Cons p qs)
  obtain s t where p: "p = (s, t)" by (cases p)
  from Cons.prems p obtain v where v: "map_of e s = Some v"
    and rest: "rename_loop qs (AList.delete s (AList.update t v e)) = Inr out"
    by (auto split: option.splits)
  from Cons.prems(2,3) p have "k \<noteq> t" "k \<noteq> s" "k \<notin> fst ` set qs" "k \<notin> snd ` set qs" by auto
  with Cons.IH [OF rest] show ?case by (simp add: update_conv' delete_conv')
qed

text \<open>What the targets hold after a run in which no pair disturbs another.\<close>

lemma duplicate_loop_values:
  assumes "distinct (map snd ps)" and "fst ` set ps \<subseteq> fst ` set e"
    and "\<forall>i<length ps. fst (ps ! i) \<notin> snd ` set (take i ps)"
  shows "\<exists>out. duplicate_loop ps e = Inr out \<and> (\<forall>(s, t)\<in>set ps. map_of out t = map_of e s)"
  using assms
proof (induction ps arbitrary: e)
  case Nil
  then show ?case by simp
next
  case (Cons p qs)
  obtain s t where p: "p = (s, t)" by (cases p)
  from Cons.prems(2) p obtain v where v: "map_of e s = Some v"
    by (cases "map_of e s") (auto simp: map_of_eq_None_iff)
  let ?e1 = "AList.update t v e"
  have later: "fst (qs ! i) \<noteq> t \<and> fst (qs ! i) \<notin> snd ` set (take i qs)" if "i < length qs" for i
    using Cons.prems(3) that p by (auto simp: All_less_Suc2)
  have src_t: "s' \<noteq> t" if "(s', t') \<in> set qs" for s' t'
    using that later by (metis fst_conv in_set_conv_nth)
  have "distinct (map snd qs)" using Cons.prems(1) by simp
  moreover have "fst ` set qs \<subseteq> fst ` set ?e1"
    using Cons.prems(2) by (auto simp: dom_update)
  moreover have "\<forall>i<length qs. fst (qs ! i) \<notin> snd ` set (take i qs)"
    using later by blast
  ultimately obtain out where out: "duplicate_loop qs ?e1 = Inr out"
    and vals: "\<forall>(s', t')\<in>set qs. map_of out t' = map_of ?e1 s'"
    using Cons.IH [of ?e1] by blast
  have "t \<notin> snd ` set qs" using Cons.prems(1) p by auto
  from duplicate_loop_frame [OF out this] have head: "map_of out t = map_of e s"
    using v by (simp add: update_conv')
  have "map_of out t' = map_of e s'" if "(s', t') \<in> set qs" for s' t'
    using vals that src_t [OF that] by (auto simp: update_conv')
  with head out v p show ?case by auto
qed

lemma rename_loop_values:
  assumes "distinct (map fst ps)" and "distinct (map snd ps)"
    and "fst ` set ps \<subseteq> fst ` set e" and "fst ` set ps \<inter> snd ` set ps = {}"
  shows "\<exists>out. rename_loop ps e = Inr out \<and>
           (\<forall>(s, t)\<in>set ps. map_of out t = map_of e s \<and> map_of out s = None)"
  using assms
proof (induction ps arbitrary: e)
  case Nil
  then show ?case by simp
next
  case (Cons p qs)
  obtain s t where p: "p = (s, t)" by (cases p)
  from Cons.prems(3) p obtain v where v: "map_of e s = Some v"
    by (cases "map_of e s") (auto simp: map_of_eq_None_iff)
  let ?e1 = "AList.delete s (AList.update t v e)"
  from Cons.prems(1,2,4) p have fresh:
    "s \<notin> fst ` set qs" "s \<notin> snd ` set qs" "t \<notin> fst ` set qs" "t \<notin> snd ` set qs" "t \<noteq> s"
    by auto
  have "distinct (map fst qs)" "distinct (map snd qs)" using Cons.prems(1,2) by simp_all
  moreover have "fst ` set qs \<subseteq> fst ` set ?e1"
    using Cons.prems(3) fresh(1) by (auto simp: dom_delete dom_update)
  moreover have "fst ` set qs \<inter> snd ` set qs = {}"
    using Cons.prems(4) by auto
  ultimately obtain out where out: "rename_loop qs ?e1 = Inr out"
    and vals: "\<forall>(s', t')\<in>set qs. map_of out t' = map_of ?e1 s' \<and> map_of out s' = None"
    using Cons.IH [of ?e1] by blast
  have head: "map_of out t = map_of e s" "map_of out s = None"
    using rename_loop_frame [OF out fresh(3,4)] rename_loop_frame [OF out fresh(1,2)] v fresh(5)
    by (simp_all add: update_conv' delete_conv')
  have "map_of out t' = map_of e s' \<and> map_of out s' = None" if "(s', t') \<in> set qs" for s' t'
  proof -
    from that fresh(1,3) have "s' \<noteq> s" "s' \<noteq> t" by force+
    with vals that show ?thesis by (auto simp: update_conv' delete_conv')
  qed
  with head out v p show ?case by auto
qed

text \<open>
  When the loops return: each source must be in the entry when its pair is reached, that
  is, in the input entry or among the targets of the pairs before it.
\<close>

lemma duplicate_loop_returns_iff:
  "(\<exists>out. duplicate_loop ps e = Inr out) \<longleftrightarrow>
   (\<forall>i<length ps. fst (ps ! i) \<in> fst ` set e \<union> snd ` set (take i ps))"
proof (induction ps arbitrary: e)
  case Nil
  show ?case by simp
next
  case (Cons p qs)
  obtain s t where p: "p = (s, t)" by (cases p)
  show ?case
  proof (cases "map_of e s")
    case None
    then have "s \<notin> fst ` set e" by (simp add: map_of_eq_None_iff)
    then have "\<not> (\<forall>i<length (p # qs).
                   fst ((p # qs) ! i) \<in> fst ` set e \<union> snd ` set (take i (p # qs)))"
      using p by (simp add: All_less_Suc2)
    with None p show ?thesis by simp
  next
    case (Some v)
    then have "s \<in> fst ` set e" by (metis map_of_eq_None_iff option.distinct(1))
    with Some p Cons.IH [of "AList.update t v e"] show ?thesis
      by (auto simp: All_less_Suc2 dom_update)
  qed
qed

lemma rename_loop_returns_iff:
  "distinct (map fst ps) \<Longrightarrow>
   (\<exists>out. rename_loop ps e = Inr out) \<longleftrightarrow>
   (\<forall>i<length ps. fst (ps ! i) \<in> fst ` set e \<union> snd ` set (take i ps))"
proof (induction ps arbitrary: e)
  case Nil
  show ?case by simp
next
  case (Cons p qs)
  obtain s t where p: "p = (s, t)" by (cases p)
  from Cons.prems p have s_new: "s \<notin> fst ` set qs" and dist: "distinct (map fst qs)" by auto
  show ?case
  proof (cases "map_of e s")
    case None
    then have "s \<notin> fst ` set e" by (simp add: map_of_eq_None_iff)
    then have "\<not> (\<forall>i<length (p # qs).
                   fst ((p # qs) ! i) \<in> fst ` set e \<union> snd ` set (take i (p # qs)))"
      using p by (simp add: All_less_Suc2)
    with None p show ?thesis by simp
  next
    case (Some v)
    then have s_in: "s \<in> fst ` set e" by (metis map_of_eq_None_iff option.distinct(1))
    let ?e1 = "AList.delete s (AList.update t v e)"
    have keys: "fst ` set ?e1 = (insert t (fst ` set e)) - {s}"
      by (simp add: dom_delete dom_update)
    have "fst (qs ! i) \<noteq> s" if "i < length qs" for i
      using s_new that by (metis image_eqI nth_mem)
    then have "(\<forall>i<length qs. fst (qs ! i) \<in> fst ` set ?e1 \<union> snd ` set (take i qs)) \<longleftrightarrow>
          (\<forall>i<length qs. fst (qs ! i) \<in> insert t (fst ` set e) \<union> snd ` set (take i qs))"
      unfolding keys by blast
    with Some p s_in Cons.IH [OF dist, of ?e1] show ?thesis
      by (auto simp: All_less_Suc2)
  qed
qed

text \<open>
  When the loops raise: the error names the source of the first pair whose source is
  missing, together with the entry as the pairs before it left it.
\<close>

lemma duplicate_loop_error:
  "duplicate_loop ps e = Inl err \<Longrightarrow>
   \<exists>i<length ps. \<exists>e'. err = ValueError (fst (ps ! i)) e' \<and>
      duplicate_loop (take i ps) e = Inr e' \<and> map_of e' (fst (ps ! i)) = None"
proof (induction ps arbitrary: e)
  case Nil
  then show ?case by simp
next
  case (Cons p qs)
  obtain s t where p: "p = (s, t)" by (cases p)
  show ?case
  proof (cases "map_of e s")
    case None
    with Cons.prems p show ?thesis by (intro exI [of _ 0]) auto
  next
    case (Some v)
    with Cons.prems p have "duplicate_loop qs (AList.update t v e) = Inl err" by simp
    from Cons.IH [OF this] obtain i e' where
      "i < length qs" "err = ValueError (fst (qs ! i)) e'"
      "duplicate_loop (take i qs) (AList.update t v e) = Inr e'"
      "map_of e' (fst (qs ! i)) = None"
      by blast
    with Some p show ?thesis by (intro exI [of _ "Suc i"]) auto
  qed
qed

lemma rename_loop_error:
  "rename_loop ps e = Inl err \<Longrightarrow>
   \<exists>i<length ps. \<exists>e'. err = ValueError (fst (ps ! i)) e' \<and>
      rename_loop (take i ps) e = Inr e' \<and> map_of e' (fst (ps ! i)) = None"
proof (induction ps arbitrary: e)
  case Nil
  then show ?case by simp
next
  case (Cons p qs)
  obtain s t where p: "p = (s, t)" by (cases p)
  show ?case
  proof (cases "map_of e s")
    case None
    with Cons.prems p show ?thesis by (intro exI [of _ 0]) auto
  next
    case (Some v)
    with Cons.prems p have "rename_loop qs (AList.delete s (AList.update t v e)) = Inl err"
      by simp
    from Cons.IH [OF this] obtain i e' where
      "i < length qs" "err = ValueError (fst (qs ! i)) e'"
      "rename_loop (take i qs) (AList.delete s (AList.update t v e)) = Inr e'"
      "map_of e' (fst (qs ! i)) = None"
      by blast
    with Some p show ?thesis by (intro exI [of _ "Suc i"]) auto
  qed
qed

section \<open>DuplicateFields and RenameFields: what the targets hold\<close>

text \<open>
  Claim C5 as stated fails when one pair's target is another pair's source. With the
  pairs \<^verbatim>\<open>a\<close> to \<^verbatim>\<open>b\<close> and \<^verbatim>\<open>b\<close> to \<^verbatim>\<open>c\<close> on \<^verbatim>\<open>{"a": 1, "b": 2}\<close>, the
  first pair overwrites \<^verbatim>\<open>b\<close> before the second reads it: DuplicateFields leaves
  \<^verbatim>\<open>c = 1\<close> where \<^verbatim>\<open>b\<close> held 2, and RenameFields leaves \<^verbatim>\<open>c = 1\<close> and no
  \<^verbatim>\<open>b\<close> at all.
\<close>

theorem target_value_counterexample:
  "DuplicateFields_process_dataset_entry [(''a'', ''b''), (''b'', ''c'')]
     [(''a'', Num 1), (''b'', Num 2)]
   = Inr [\<lparr>data = [(''a'', Num 1), (''b'', Num 1), (''c'', Num 1)], metrics = None\<rparr>] \<and>
   map_of [(''a'', Num 1), (''b'', Num 2)] ''b'' = Some (Num 2) \<and>
   map_of [(''a'', Num 1), (''b'', Num 1), (''c'', Num 1)] ''c'' = Some (Num 1) \<and>
   RenameFields_process_dataset_entry [(''a'', ''b''), (''b'', ''c'')]
     [(''a'', Num 1), (''b'', Num 2)]
   = Inr [\<lparr>data = [(''c'', Num 1)], metrics = None\<rparr>] \<and>
   map_of [(''c'', Num 1)] ''b'' = None \<and>
   Num 1 \<noteq> Num 2"
  by (simp add: DuplicateFields_process_dataset_entry_def RenameFields_process_dataset_entry_def)

text \<open>
  Claim C5, amended. Let every configured source be present in the entry and let the
  targets be pairwise distinct. If no source is the target of an earlier pair, the entry
  DuplicateFields returns holds, in each target field, the value the source field had in
  the input entry. If no field is both a source and a target (and the sources are
  distinct, as the keys of a dictionary are), the entry RenameFields returns holds the
  source's input value in each target field and has no source field left.
\<close>

theorem Duplicate_Rename_target_gets_source_value:
  "(distinct (map snd ps) \<and> fst ` set ps \<subseteq> fst ` set e \<and>
    (\<forall>i<length ps. fst (ps ! i) \<notin> snd ` set (take i ps)) \<longrightarrow>
      (\<exists>out. DuplicateFields_process_dataset_entry ps e = Inr [\<lparr>data = out, metrics = None\<rparr>] \<and>
             (\<forall>(s, t)\<in>set ps. map_of out t = map_of e s))) \<and>
   (distinct (map fst ps) \<and> distinct (map snd ps) \<and> fst ` set ps \<subseteq> fst ` set e \<and>
    fst ` set ps \<inter> snd ` set ps = {} \<longrightarrow>
      (\<exists>out. RenameFields_process_dataset_entry ps e = Inr [\<lparr>data = out, metrics = None\<rparr>] \<and>
             (\<forall>(s, t)\<in>set ps. map_of out t = map_of e s \<and> map_of out s = None)))"
proof (intro conjI impI)
  assume "distinct (map snd ps) \<and> fst ` set ps \<subseteq> fst ` set e \<and>
    (\<forall>i<length ps. fst (ps ! i) \<notin> snd ` set (take i ps))"
  then obtain out where "duplicate_loop ps e = Inr out"
    "\<forall>(s, t)\<in>set ps. map_of out t = map_of e s"
    using duplicate_loop_values [of ps e] by blast
  then show "\<exists>out. DuplicateFields_process_dataset_entry ps e = Inr [\<lparr>data = out, metrics = None\<rparr>] \<and>
             (\<forall>(s, t)\<in>set ps. map_of out t = map_of e s)"
    by (simp add: DuplicateFields_process_dataset_entry_def)
next
  assume "distinct (map fst ps) \<and> distinct (map snd ps) \<and> fst ` set ps \<subseteq> fst ` set e \<and>
    fst ` set ps \<inter> snd ` set ps = {}"
  then obtain out where "rename_loop ps e = Inr out"
    "\<forall>(s, t)\<in>set ps. map_of out t = map_of e s \<and> map_of out s = None"
    using rename_loop_values [of ps e] by blast
  then show "\<exists>out. RenameFields_process_dataset_entry ps e = Inr [\<lparr>data = out, metrics = None\<rparr>] \<and>
             (\<forall>(s, t)\<in>set ps. map_of out t = map_of e s \<and> map_of out s = None)"
    by (simp add: RenameFields_process_dataset_entry_def)
qed

text \<open>
  The theorem at the pairs \<^verbatim>\<open>text\<close> to \<^verbatim>\<open>text_no_pc\<close> and \<^verbatim>\<open>id\<close> to \<^verbatim>\<open>utt\<close>
  on the entry \<^verbatim>\<open>{"id": 7, "text": "hi"}\<close>.
\<close>

theorem Duplicate_Rename_target_gets_source_value_witness:
  "distinct (map snd [(''text'', ''text_no_pc''), (''id'', ''utt'')]) \<and>
   distinct (map fst [(''text'', ''text_no_pc''), (''id'', ''utt'')]) \<and>
   fst ` set [(''text'', ''text_no_pc''), (''id'', ''utt'')]
     \<subseteq> fst ` set [(''id'', Num 7), (''text'', Str (ustr ''hi''))] \<and>
   fst ` set [(''text'', ''text_no_pc''), (''id'', ''utt'')]
     \<inter> snd ` set [(''text'', ''text_no_pc''), (''id'', ''utt'')] = {} \<and>
   (\<exists>out. DuplicateFields_process_dataset_entry [(''text'', ''text_no_pc''), (''id'', ''utt'')]
            [(''id'', Num 7), (''text'', Str (ustr ''hi''))]
          = Inr [\<lparr>data = out, metrics = None\<rparr>] \<and>
          map_of out ''text_no_pc'' = Some (Str (ustr ''hi'')) \<and>
          map_of out ''utt'' = Some (Num 7)) \<and>
   (\<exists>out. RenameFields_process_dataset_entry [(''text'', ''text_no_pc''), (''id'', ''utt'')]
            [(''id'', Num 7), (''text'', Str (ustr ''hi''))]
          = Inr [\<lparr>data = out, metrics = None\<rparr>] \<and>
          map_of out ''text_no_pc'' = Some (Str (ustr ''hi'')) \<and>
          map_of out ''text'' = None \<and>
          map_of out ''utt'' = Some (Num 7) \<and> map_of out ''id'' = None)"
  using Duplicate_Rename_target_gets_source_value
    [of "[(''text'', ''text_no_pc''), (''id'', ''utt'')]"
        "[(''id'', Num 7), (''text'', Str (ustr ''hi''))]"]
  by (simp add: All_less_Suc2)

section \<open>DuplicateFields and RenameFields: a missing source\<close>

text \<open>
  Claim C6 as stated fails in one direction: a source that is absent from the input entry
  but is the target of an earlier pair is found when its pair is reached. With the pairs
  \<^verbatim>\<open>a\<close> to \<^verbatim>\<open>b\<close> and \<^verbatim>\<open>b\<close> to \<^verbatim>\<open>c\<close> on \<^verbatim>\<open>{"a": 1}\<close>, both processors
  return a result although the source \<^verbatim>\<open>b\<close> is not in the entry.
\<close>

theorem missing_source_counterexample:
  "DuplicateFields_process_dataset_entry [(''a'', ''b''), (''b'', ''c'')] [(''a'', Num 1)]
   = Inr [\<lparr>data = [(''a'', Num 1), (''b'', Num 1), (''c'', Num 1)], metrics = None\<rparr>] \<and>
   RenameFields_process_dataset_entry [(''a'', ''b''), (''b'', ''c'')] [(''a'', Num 1)]
   = Inr [\<lparr>data = [(''c'', Num 1)], metrics = None\<rparr>] \<and>
   ''b'' \<in> fst ` set [(''a'', ''b''), (''b'', ''c'')] \<and>
   ''b'' \<notin> fst ` set [(''a'', Num 1)]"
  by (simp add: DuplicateFields_process_dataset_entry_def RenameFields_process_dataset_entry_def)

text \<open>
  Claim C6, amended. For DuplicateFields and for RenameFields alike, with the sources of
  the configuration distinct: the processor returns a result exactly when every source is
  in the entry at the moment its pair is reached, that is, present in the input entry or
  the target of an earlier pair. So when no source is the target of an earlier pair, it
  returns a result exactly when every source is present in the input entry. Whenever it
  does not return, it raises \<^verbatim>\<open>ValueError\<close> (never skipping the pair), and the message
  names the source of the first pair whose source is missing and the entry as the pairs
  before it left it.
\<close>

theorem missing_source_field_raises:
  assumes keys: "distinct (map fst ps)"
    and proc: "process = DuplicateFields_process_dataset_entry \<or>
               process = RenameFields_process_dataset_entry"
  shows "((\<exists>r. process ps e = Inr [r]) \<longleftrightarrow>
            (\<forall>i<length ps. fst (ps ! i) \<in> fst ` set e \<union> snd ` set (take i ps))) \<and>
         ((\<forall>i<length ps. fst (ps ! i) \<notin> snd ` set (take i ps)) \<longrightarrow>
            ((\<exists>r. process ps e = Inr [r]) \<longleftrightarrow> fst ` set ps \<subseteq> fst ` set e)) \<and>
         (\<forall>err. process ps e = Inl err \<longrightarrow>
            (\<exists>i<length ps. \<exists>e'. err = ValueError (fst (ps ! i)) e' \<and>
               map_of e' (fst (ps ! i)) = None \<and>
               process (take i ps) e = Inr [\<lparr>data = e', metrics = None\<rparr>]))"
proof -
  let ?reach = "\<forall>i<length ps. fst (ps ! i) \<in> fst ` set e \<union> snd ` set (take i ps)"
  have ret: "(\<exists>r. process ps e = Inr [r]) \<longleftrightarrow> ?reach"
  proof -
    have "(\<exists>r. DuplicateFields_process_dataset_entry ps e = Inr [r]) \<longleftrightarrow>
          (\<exists>out. duplicate_loop ps e = Inr out)"
      by (auto simp: DuplicateFields_process_dataset_entry_def split: sum.splits)
    moreover have "(\<exists>r. RenameFields_process_dataset_entry ps e = Inr [r]) \<longleftrightarrow>
          (\<exists>out. rename_loop ps e = Inr out)"
      by (auto simp: RenameFields_process_dataset_entry_def split: sum.splits)
    ultimately show ?thesis
      using proc duplicate_loop_returns_iff [of ps e] rename_loop_returns_iff [OF keys, of e]
      by auto
  qed
  have plain: "?reach \<longleftrightarrow> fst ` set ps \<subseteq> fst ` set e"
    if fresh: "\<forall>i<length ps. fst (ps ! i) \<notin> snd ` set (take i ps)"
  proof
    assume r: ?reach
    show "fst ` set ps \<subseteq> fst ` set e"
    proof
      fix k assume "k \<in> fst ` set ps"
      then obtain i where "i < length ps" "k = fst (ps ! i)"
        by (metis imageE in_set_conv_nth)
      with r fresh show "k \<in> fst ` set e" by blast
    qed
  next
    assume "fst ` set ps \<subseteq> fst ` set e"
    then show ?reach by (metis UnI1 image_eqI nth_mem subsetD)
  qed
  have err: "\<exists>i<length ps. \<exists>e'. err = ValueError (fst (ps ! i)) e' \<and>
               map_of e' (fst (ps ! i)) = None \<and>
               process (take i ps) e = Inr [\<lparr>data = e', metrics = None\<rparr>]"
    if "process ps e = Inl err" for err
    using proc
  proof
    assume d: "process = DuplicateFields_process_dataset_entry"
    with that have "duplicate_loop ps e = Inl err"
      by (auto simp: DuplicateFields_process_dataset_entry_def split: sum.splits)
    from duplicate_loop_error [OF this] show ?thesis
      unfolding d by (auto simp: DuplicateFields_process_dataset_entry_def)
  next
    assume d: "process = RenameFields_process_dataset_entry"
    with that have "rename_loop ps e = Inl err"
      by (auto simp: RenameFields_process_dataset_entry_def split: sum.splits)
    from rename_loop_error [OF this] show ?thesis
      unfolding d by (auto simp: RenameFields_process_dataset_entry_def)
  qed
  from ret plain err show ?thesis by blast
qed

text \<open>
  The theorem at the pairs \<^verbatim>\<open>text\<close> to \<^verbatim>\<open>text_no_pc\<close> and \<^verbatim>\<open>id\<close> to \<^verbatim>\<open>utt\<close>
  on the entry \<^verbatim>\<open>{"text": "hi"}\<close>, which has no \<^verbatim>\<open>id\<close>: both processors raise;
  with \<^verbatim>\<open>id\<close> in the entry a result is returned.
\<close>

theorem missing_source_field_raises_witness:
  "distinct (map fst [(''text'', ''text_no_pc''), (''id'', ''utt'')]) \<and>
   ''id'' \<notin> fst ` set [(''text'', Str (ustr ''hi''))] \<and>
   DuplicateFields_process_dataset_entry [(''text'', ''text_no_pc''), (''id'', ''utt'')]
     [(''text'', Str (ustr ''hi''))]
   = Inl (ValueError ''id'' [(''text'', Str (ustr ''hi'')), (''text_no_pc'', Str (ustr ''hi''))]) \<and>
   RenameFields_process_dataset_entry [(''text'', ''text_no_pc''), (''id'', ''utt'')]
     [(''text'', Str (ustr ''hi''))]
   = Inl (ValueError ''id'' [(''text_no_pc'', Str (ustr ''hi''))]) \<and>
   (\<nexists>r. DuplicateFields_process_dataset_entry [(''text'', ''text_no_pc''), (''id'', ''utt'')]
     [(''text'', Str (ustr ''hi''))] = Inr [r]) \<and>
   (\<nexists>r. RenameFields_process_dataset_entry [(''text'', ''text_no_pc''), (''id'', ''utt'')]
     [(''text'', Str (ustr ''hi''))] = Inr [r]) \<and>
   (\<exists>r. DuplicateFields_process_dataset_entry [(''text'', ''text_no_pc''), (''id'', ''utt'')]
     [(''text'', Str (ustr ''hi'')), (''id'', Num 7)] = Inr [r])"
  using missing_source_field_raises
    [of "[(''text'', ''text_no_pc''), (''id'', ''utt'')]" DuplicateFields_process_dataset_entry
        "[(''text'', Str (ustr ''hi''))]"]
    missing_source_field_raises
    [of "[(''text'', ''text_no_pc''), (''id'', ''utt'')]" RenameFields_process_dataset_entry
        "[(''text'', Str (ustr ''hi''))]"]
    missing_source_field_raises
    [of "[(''text'', ''text_no_pc''), (''id'', ''utt'')]" DuplicateFields_process_dataset_entry
        "[(''text'', Str (ustr ''hi'')), (''id'', Num 7)]"]
  by (simp add: DuplicateFields_process_dataset_entry_def RenameFields_process_dataset_entry_def)

section \<open>Double precision: computing the rounding\<close>

































section \<open>SplitOnFixedDuration: the emitted segments\<close>

lemma modified_entry_lookup:
  "map_of (modified_entry cfg e dur off) k =
     (if k = ''text'' \<and> drop_text cfg then None
      else if k = ''offset'' then Some off
      else if k = ''duration'' then Some dur
      else map_of e k)"
  by (simp add: modified_entry_def Let_def update_conv' delete_conv')

lemma floor_quotient_bounds:
  fixes d s :: rat
  assumes "0 \<le> d" "0 < s"
  shows "0 \<le> \<lfloor>d / s\<rfloor>"
    and "of_int \<lfloor>d / s\<rfloor> = (of_nat (nat \<lfloor>d / s\<rfloor>) :: rat)"
    and "0 \<le> d - s * of_nat (nat \<lfloor>d / s\<rfloor>)"
    and "d - s * of_nat (nat \<lfloor>d / s\<rfloor>) < s"
proof -
  show nonneg: "0 \<le> \<lfloor>d / s\<rfloor>" using assms by simp
  then show eq: "of_int \<lfloor>d / s\<rfloor> = (of_nat (nat \<lfloor>d / s\<rfloor>) :: rat)" by simp
  have "of_int \<lfloor>d / s\<rfloor> * s \<le> d" using assms(2) by (rule floor_divide_lower)
  then show "0 \<le> d - s * of_nat (nat \<lfloor>d / s\<rfloor>)"
    unfolding eq [symmetric] by (simp add: mult.commute)
  have "d < (of_int \<lfloor>d / s\<rfloor> + 1) * s" using assms(2) by (rule floor_divide_upper)
  then show "d - s * of_nat (nat \<lfloor>d / s\<rfloor>) < s"
    unfolding eq [symmetric] by (simp add: algebra_simps)
qed

lemma main_segments_exact:
  "main_segments exact_arith cfg e idxs =
     Inr (map (\<lambda>i. \<lparr>data = modified_entry cfg e (Num (segment_duration cfg))
                          (Num (of_nat i * segment_duration cfg)),
                      metrics = None\<rparr>) idxs)"
  by (induction idxs) (simp_all add: exact_arith_def exact_multiply_def mult.commute)

lemma split_output:
  assumes "map_of e ''duration'' = Some (Num d)" "0 \<le> d" "0 < segment_duration cfg"
  shows "SplitOnFixedDuration_process_dataset_entry exact_arith cfg e =
     Inr (map (\<lambda>i. \<lparr>data = modified_entry cfg e (Num (segment_duration cfg))
                          (Num (of_nat i * segment_duration cfg)),
                      metrics = None\<rparr>)
            [0..<nat \<lfloor>d / segment_duration cfg\<rfloor>] @
          (if \<not> drop_last cfg \<and>
              0 < d - segment_duration cfg * of_nat (nat \<lfloor>d / segment_duration cfg\<rfloor>)
           then [\<lparr>data = modified_entry cfg e
                     (Num (d - segment_duration cfg *
                             of_nat (nat \<lfloor>d / segment_duration cfg\<rfloor>)))
                     (Num (segment_duration cfg *
                             of_nat (nat \<lfloor>d / segment_duration cfg\<rfloor>))),
                   metrics = None\<rparr>]
           else []))"
proof -
  have ops: "floor_div exact_arith (Num d) (segment_duration cfg) = Inr \<lfloor>d / segment_duration cfg\<rfloor>"
    "multiply exact_arith (segment_duration cfg) n = Inr (Num (segment_duration cfg * of_int n))"
    "subtract exact_arith (Num d) (Num p) = Inr (Num (d - p))" for n p
    using assms(3)
    by (simp_all add: exact_arith_def exact_floor_div_def exact_multiply_def exact_subtract_def)
  show ?thesis
    using assms(1) floor_quotient_bounds(2) [OF assms(2,3)]
    by (simp add: SplitOnFixedDuration_process_dataset_entry_def ops main_segments_exact)
qed




section \<open>SplitOnFixedDuration: sums and bounds\<close>

text \<open>
  Claim C4. Under the same conditions (a number \<open>d \<ge> 0\<close> in \<^verbatim>\<open>duration\<close>, \<open>s > 0\<close>,
  exact arithmetic), with \<open>r\<close> the remainder the code computes: the emitted segments all
  hold a number in \<^verbatim>\<open>duration\<close> and in \<^verbatim>\<open>offset\<close>; the durations add up to \<open>d\<close>
  when \<^verbatim>\<open>drop_last\<close> is false and to \<open>d - r\<close> when it is true; every duration is
  positive and at most \<open>s\<close>; every offset is non-negative, and the offsets increase
  strictly in the order of emission.
\<close>

theorem SplitOnFixedDuration_durations_offsets:
  fixes cfg :: SplitOnFixedDuration and e :: entry and d :: rat
  defines "s \<equiv> segment_duration cfg"
  defines "r \<equiv> d - s * of_int \<lfloor>d / s\<rfloor>"
  assumes dur: "map_of e ''duration'' = Some (Num d)" and d: "0 \<le> d" and s: "0 < s"
  shows "\<exists>outs ds os.
           SplitOnFixedDuration_process_dataset_entry exact_arith cfg e = Inr outs \<and>
           map (\<lambda>out. map_of (data out) ''duration'') outs = map (\<lambda>x. Some (Num x)) ds \<and>
           map (\<lambda>out. map_of (data out) ''offset'') outs = map (\<lambda>x. Some (Num x)) os \<and>
           sum_list ds = (if drop_last cfg then d - r else d) \<and>
           (\<forall>x\<in>set ds. 0 < x \<and> x \<le> s) \<and>
           (\<forall>x\<in>set os. 0 \<le> x) \<and>
           sorted_wrt (<) os"
proof -
  define n where "n = nat \<lfloor>d / s\<rfloor>"
  have r_eq: "r = d - s * of_nat n"
    using floor_quotient_bounds(2) [OF d s] by (simp add: r_def n_def)
  have r_bounds: "0 \<le> r" "r < s"
    using floor_quotient_bounds(3,4) [OF d s] by (simp_all add: r_eq n_def)
  let ?more = "\<not> drop_last cfg \<and> 0 < r"
  let ?outs = "map (\<lambda>i. \<lparr>data = modified_entry cfg e (Num s) (Num (of_nat i * s)), metrics = None\<rparr>) [0..<n] @
               (if ?more then [\<lparr>data = modified_entry cfg e (Num r) (Num (s * of_nat n)), metrics = None\<rparr>]
                else [])"
  let ?ds = "replicate n s @ (if ?more then [r] else [])"
  let ?os = "map (\<lambda>i. of_nat i * s) [0..<n] @ (if ?more then [s * of_nat n] else [])"
  have out: "SplitOnFixedDuration_process_dataset_entry exact_arith cfg e = Inr ?outs"
    using split_output [OF dur d s [unfolded s_def]] by (simp add: s_def n_def r_eq)
  have durs: "map (\<lambda>out. map_of (data out) ''duration'') ?outs = map (\<lambda>x. Some (Num x)) ?ds"
    by (simp add: modified_entry_lookup o_def map_replicate_const)
  have offs: "map (\<lambda>out. map_of (data out) ''offset'') ?outs = map (\<lambda>x. Some (Num x)) ?os"
    by (simp add: modified_entry_lookup o_def)
  have total: "sum_list ?ds = (if drop_last cfg then d - r else d)"
    using r_bounds(1) by (auto simp: sum_list_replicate r_eq mult.commute)
  have each: "\<forall>x\<in>set ?ds. 0 < x \<and> x \<le> s"
    using s r_bounds(2) by auto
  have nonneg: "\<forall>x\<in>set ?os. 0 \<le> x"
    using s by auto
  have incr: "sorted_wrt (<) (map (\<lambda>i. of_nat i * s) [0..<n])"
    using s by (simp add: sorted_wrt_map sorted_wrt_iff_nth_less)
  have "sorted_wrt (<) ?os"
    using incr s by (auto simp: sorted_wrt_append)
  with out durs offs total each nonneg show ?thesis by blast
qed

text \<open>The theorem at the same entry and configuration: the durations add up to 7.5.\<close>

theorem SplitOnFixedDuration_durations_offsets_witness:
  "map_of [(''duration'', Num (15 / 2)), (''text'', Str (ustr ''hi''))] ''duration''
     = Some (Num (15 / 2)) \<and>
   (0::rat) \<le> 15 / 2 \<and>
   0 < segment_duration \<lparr>segment_duration = 3, drop_last = False, drop_text = True\<rparr> \<and>
   (\<exists>outs ds os.
      SplitOnFixedDuration_process_dataset_entry exact_arith
        \<lparr>segment_duration = 3, drop_last = False, drop_text = True\<rparr>
        [(''duration'', Num (15 / 2)), (''text'', Str (ustr ''hi''))] = Inr outs \<and>
      map (\<lambda>out. map_of (data out) ''duration'') outs = map (\<lambda>x. Some (Num x)) ds \<and>
      map (\<lambda>out. map_of (data out) ''offset'') outs = map (\<lambda>x. Some (Num x)) os \<and>
      sum_list ds = 15 / 2 \<and>
      (\<forall>x\<in>set ds. 0 < x \<and> x \<le> 3) \<and>
      (\<forall>x\<in>set os. 0 \<le> x) \<and>
      sorted_wrt (<) os)"
  using SplitOnFixedDuration_durations_offsets
    [of "[(''duration'', Num (15 / 2)), (''text'', Str (ustr ''hi''))]" "15 / 2"
        "\<lparr>segment_duration = 3, drop_last = False, drop_text = True\<rparr>"]
  by simp

section \<open>Fields a processor does not name\<close>

lemma combine_loop_frame:
  "k \<noteq> tgt \<Longrightarrow> k \<noteq> tgt @ ''_origin'' \<Longrightarrow> map_of (combine_loop srcs tgt na e) k = map_of e k"
  by (induction srcs) (auto simp: update_conv' split: option.splits)

lemma dict_update_frame:
  "k \<notin> fst ` set other \<Longrightarrow> map_of (dict_update e other) k = map_of e k"
  unfolding dict_update_def
  by (induction other arbitrary: e) (auto simp: update_conv')

lemma main_segments_data:
  "main_segments ar cfg e idxs = Inr outs \<Longrightarrow> out \<in> set outs \<Longrightarrow>
   \<exists>dur off. data out = modified_entry cfg e dur off"
proof (induction idxs arbitrary: outs)
  case Nil
  then show ?case by simp
next
  case (Cons i idxs)
  from Cons.prems(1) obtain off rest where
    rest: "main_segments ar cfg e idxs = Inr rest"
    and outs: "outs = \<lparr>data = modified_entry cfg e (Num (segment_duration cfg)) off,
                        metrics = None\<rparr> # rest"
    by (auto split: sum.splits)
  from Cons.prems(2) outs consider
    "out = \<lparr>data = modified_entry cfg e (Num (segment_duration cfg)) off, metrics = None\<rparr>"
    | "out \<in> set rest"
    by auto
  then show ?case
  proof cases
    case 1
    then have "data out = modified_entry cfg e (Num (segment_duration cfg)) off" by simp
    then show ?thesis by blast
  next
    case 2
    then show ?thesis by (rule Cons.IH [OF rest])
  qed
qed

lemma split_frame:
  assumes "SplitOnFixedDuration_process_dataset_entry ar cfg e = Inr outs" and "out \<in> set outs"
    and "k \<noteq> ''duration''" and "k \<noteq> ''offset''" and "drop_text cfg \<longrightarrow> k \<noteq> ''text''"
  shows "map_of (data out) k = map_of e k"
proof -
  from assms(1) obtain n segs product remainder where
    main: "main_segments ar cfg e [0..<nat n] = Inr segs"
    and outs: "outs = segs \<or>
               outs = segs @ [\<lparr>data = modified_entry cfg e remainder product,
                                   metrics = None\<rparr>]"
    by (auto simp: SplitOnFixedDuration_process_dataset_entry_def
             split: option.splits sum.splits if_splits)
  from assms(2) outs consider "out \<in> set segs"
    | "out = \<lparr>data = modified_entry cfg e remainder product, metrics = None\<rparr>"
    by auto
  then obtain dur off where "data out = modified_entry cfg e dur off"
  proof cases
    case 1
    from main_segments_data [OF main 1] that show ?thesis by blast
  next
    case 2
    then have "data out = modified_entry cfg e remainder product" by simp
    with that show ?thesis by blast
  qed
  with assms(3-5) show ?thesis by (auto simp: modified_entry_lookup)
qed

text \<open>
  Claim C7. Every returned entry of a per-entry processor holds, for every field name
  \<open>k\<close> the processor does not write, rename or drop, what the input entry holds for
  \<open>k\<close> (the same value, or nothing on both sides). The fields a processor touches are:
  for CombineSources the target and its \<open>_origin\<close> field; for AddConstantFields the
  configured fields; for DuplicateFields the targets; for RenameFields the sources and
  the targets; for SplitOnFixedDuration \<^verbatim>\<open>duration\<close>, \<^verbatim>\<open>offset\<close> and, under
  \<^verbatim>\<open>drop_text\<close>, \<^verbatim>\<open>text\<close>; for ChangeToRelativePath \<^verbatim>\<open>audio_filepath\<close>;
  RemoveExtraSymbols touches none. For SplitOnFixedDuration this holds whatever the
  arithmetic.
\<close>

theorem untouched_fields_preserved:
  "(\<forall>out\<in>set (CombineSources_process_dataset_entry combine e).
      k \<noteq> target combine \<and> k \<noteq> target combine @ ''_origin'' \<longrightarrow>
      map_of (data out) k = map_of e k) \<and>
   (\<forall>out\<in>set (AddConstantFields_process_dataset_entry const_fields e).
      k \<notin> fst ` set const_fields \<longrightarrow> map_of (data out) k = map_of e k) \<and>
   (\<forall>outs. DuplicateFields_process_dataset_entry duplicate_fields e = Inr outs \<longrightarrow>
      (\<forall>out\<in>set outs. k \<notin> snd ` set duplicate_fields \<longrightarrow>
         map_of (data out) k = map_of e k)) \<and>
   (\<forall>outs. RenameFields_process_dataset_entry rename_fields e = Inr outs \<longrightarrow>
      (\<forall>out\<in>set outs. k \<notin> fst ` set rename_fields \<and> k \<notin> snd ` set rename_fields \<longrightarrow>
         map_of (data out) k = map_of e k)) \<and>
   (\<forall>outs. SplitOnFixedDuration_process_dataset_entry arith split e = Inr outs \<longrightarrow>
      (\<forall>out\<in>set outs. k \<noteq> ''duration'' \<and> k \<noteq> ''offset'' \<and> (drop_text split \<longrightarrow> k \<noteq> ''text'') \<longrightarrow>
         map_of (data out) k = map_of e k)) \<and>
   (\<forall>outs. ChangeToRelativePath_process_dataset_entry relpath base_dir e = Inr outs \<longrightarrow>
      (\<forall>out\<in>set outs. k \<noteq> ''audio_filepath'' \<longrightarrow> map_of (data out) k = map_of e k)) \<and>
   (\<forall>outs. RemoveExtraSymbols_process_dataset_entry upper strip e = Inr outs \<longrightarrow>
      (\<forall>out\<in>set outs. map_of (data out) k = map_of e k))"
proof (intro conjI)
  show "\<forall>out\<in>set (CombineSources_process_dataset_entry combine e).
      k \<noteq> target combine \<and> k \<noteq> target combine @ ''_origin'' \<longrightarrow>
      map_of (data out) k = map_of e k"
    by (simp add: CombineSources_process_dataset_entry_def combine_loop_frame)
  show "\<forall>out\<in>set (AddConstantFields_process_dataset_entry const_fields e).
      k \<notin> fst ` set const_fields \<longrightarrow> map_of (data out) k = map_of e k"
    by (simp add: AddConstantFields_process_dataset_entry_def dict_update_frame)
  show "\<forall>outs. DuplicateFields_process_dataset_entry duplicate_fields e = Inr outs \<longrightarrow>
      (\<forall>out\<in>set outs. k \<notin> snd ` set duplicate_fields \<longrightarrow>
         map_of (data out) k = map_of e k)"
    by (auto simp: DuplicateFields_process_dataset_entry_def duplicate_loop_frame
             split: sum.splits)
  show "\<forall>outs. RenameFields_process_dataset_entry rename_fields e = Inr outs \<longrightarrow>
      (\<forall>out\<in>set outs. k \<notin> fst ` set rename_fields \<and> k \<notin> snd ` set rename_fields \<longrightarrow>
         map_of (data out) k = map_of e k)"
    by (auto simp: RenameFields_process_dataset_entry_def rename_loop_frame
             split: sum.splits)
  show "\<forall>outs. SplitOnFixedDuration_process_dataset_entry arith split e = Inr outs \<longrightarrow>
      (\<forall>out\<in>set outs. k \<noteq> ''duration'' \<and> k \<noteq> ''offset'' \<and> (drop_text split \<longrightarrow> k \<noteq> ''text'') \<longrightarrow>
         map_of (data out) k = map_of e k)"
    using split_frame by blast
  show "\<forall>outs. ChangeToRelativePath_process_dataset_entry relpath base_dir e = Inr outs \<longrightarrow>
      (\<forall>out\<in>set outs. k \<noteq> ''audio_filepath'' \<longrightarrow> map_of (data out) k = map_of e k)"
    by (auto simp: ChangeToRelativePath_process_dataset_entry_def update_conv'
             split: option.splits val.splits sum.splits)
  show "\<forall>outs. RemoveExtraSymbols_process_dataset_entry upper strip e = Inr outs \<longrightarrow>
      (\<forall>out\<in>set outs. map_of (data out) k = map_of e k)"
    by (auto simp: RemoveExtraSymbols_process_dataset_entry_def Let_def
             split: option.splits val.splits if_splits)
qed

text \<open>
  The theorem at the field \<^verbatim>\<open>id\<close> of the entry
  \<^verbatim>\<open>{"audio_filepath": "/data/a.wav", "duration": 7.5, "text": "hi", "id": 7}\<close>, with
  one configuration for each processor.
\<close>

theorem untouched_fields_preserved_witness:
  "(\<exists>out. CombineSources_process_dataset_entry
            \<lparr>sources = [\<lparr>field = ''text_pc'', origin_label = ustr ''original''\<rparr>],
             target = ''text'', na_indicator = ustr ''n/a''\<rparr>
       [(''audio_filepath'', Str (ustr ''/data/a.wav'')), (''duration'', Num (15 / 2)),
        (''text'', Str (ustr ''hi'')), (''id'', Num 7)] = [out] \<and>
       map_of (data out) ''id'' = Some (Num 7)) \<and>
   (\<exists>out. AddConstantFields_process_dataset_entry [(''label'', Str (ustr ''en''))]
       [(''audio_filepath'', Str (ustr ''/data/a.wav'')), (''duration'', Num (15 / 2)),
        (''text'', Str (ustr ''hi'')), (''id'', Num 7)] = [out] \<and>
       map_of (data out) ''id'' = Some (Num 7)) \<and>
   (\<exists>out. DuplicateFields_process_dataset_entry [(''text'', ''text_no_pc'')]
       [(''audio_filepath'', Str (ustr ''/data/a.wav'')), (''duration'', Num (15 / 2)),
        (''text'', Str (ustr ''hi'')), (''id'', Num 7)] = Inr [out] \<and>
       map_of (data out) ''id'' = Some (Num 7)) \<and>
   (\<exists>out. RenameFields_process_dataset_entry [(''text'', ''text_raw'')]
       [(''audio_filepath'', Str (ustr ''/data/a.wav'')), (''duration'', Num (15 / 2)),
        (''text'', Str (ustr ''hi'')), (''id'', Num 7)] = Inr [out] \<and>
       map_of (data out) ''id'' = Some (Num 7)) \<and>
   (\<exists>o1 o2 o3. SplitOnFixedDuration_process_dataset_entry exact_arith
            \<lparr>segment_duration = 3, drop_last = False, drop_text = True\<rparr>
       [(''audio_filepath'', Str (ustr ''/data/a.wav'')), (''duration'', Num (15 / 2)),
        (''text'', Str (ustr ''hi'')), (''id'', Num 7)] = Inr [o1, o2, o3] \<and>
       map_of (data o1) ''id'' = Some (Num 7) \<and>
       map_of (data o2) ''id'' = Some (Num 7) \<and>
       map_of (data o3) ''id'' = Some (Num 7)) \<and>
   (\<exists>out. ChangeToRelativePath_process_dataset_entry (\<lambda>p start. Inr (drop (length start) p))
            (ustr ''/data/'')
       [(''audio_filepath'', Str (ustr ''/data/a.wav'')), (''duration'', Num (15 / 2)),
        (''text'', Str (ustr ''hi'')), (''id'', Num 7)] = Inr [out] \<and>
       map_of (data out) ''id'' = Some (Num 7)) \<and>
   (\<exists>out. RemoveExtraSymbols_process_dataset_entry ascii_upper
            \<lparr>ignore_symbols = ustr ''i'', target_language = ustr ''armenian'', text_key = ''text''\<rparr>
       [(''audio_filepath'', Str (ustr ''/data/a.wav'')), (''duration'', Num (15 / 2)),
        (''text'', Str (ustr ''hi'')), (''id'', Num 7)] = Inr [out] \<and>
       map_of (data out) ''id'' = Some (Num 7))"
proof -
  have fl: "\<lfloor>5 / 2 :: rat\<rfloor> = 2" by (rule floor_unique) simp_all
  have two: "[0..<2] = [0, Suc 0]" by (simp add: upt_rec)
  show ?thesis
    using untouched_fields_preserved
      [of "\<lparr>sources = [\<lparr>field = ''text_pc'', origin_label = ustr ''original''\<rparr>],
             target = ''text'', na_indicator = ustr ''n/a''\<rparr>"
          "[(''audio_filepath'', Str (ustr ''/data/a.wav'')), (''duration'', Num (15 / 2)),
        (''text'', Str (ustr ''hi'')), (''id'', Num 7)]"
          "''id''"
          "[(''label'', Str (ustr ''en''))]"
          "[(''text'', ''text_no_pc'')]"
          "[(''text'', ''text_raw'')]"
          exact_arith
          "\<lparr>segment_duration = 3, drop_last = False, drop_text = True\<rparr>"
          "\<lambda>p start. Inr (drop (length start) p)"
          "ustr ''/data/''"
          ascii_upper
          "\<lparr>ignore_symbols = ustr ''i'', target_language = ustr ''armenian'', text_key = ''text''\<rparr>"]
    by (simp add: CombineSources_process_dataset_entry_def
          AddConstantFields_process_dataset_entry_def dict_update_def
          DuplicateFields_process_dataset_entry_def RenameFields_process_dataset_entry_def
          SplitOnFixedDuration_process_dataset_entry_def modified_entry_def Let_def fl two
          exact_arith_def exact_floor_div_def exact_multiply_def exact_subtract_def
          ChangeToRelativePath_process_dataset_entry_def
          RemoveExtraSymbols_process_dataset_entry_def)
qed

section \<open>CreateTokenizer: the flag for lower case\<close>

lemma digit_not_minus: "k < 10 \<Longrightarrow> char_of (48 + k :: nat) \<noteq> CHR ''-''"
proof
  assume k: "k < 10" and "char_of (48 + k) = CHR ''-''"
  then have "(48 + k) mod 256 = (45 :: nat)"
    by (simp add: char_of_eq_iff take_bit_eq_mod)
  with k show False by simp
qed

lemma str_nat_no_minus: "CHR ''-'' \<notin> set (str_nat n)"
proof (induction n rule: str_nat.induct)
  case (1 n)
  show ?case
  proof (cases "n < 10")
    case True
    then show ?thesis
      using digit_not_minus [of n] by (subst str_nat.simps) auto
  next
    case False
    have "n mod 10 < 10" by simp
    from digit_not_minus [OF this] "1.IH" [OF False] False show ?thesis
      by (subst str_nat.simps) auto
  qed
qed

lemma str_int_not_flag: "str_int i \<noteq> ''--no_lower_case''"
proof
  assume eq: "str_int i = ''--no_lower_case''"
  show False
  proof (cases "i < 0")
    case True
    with eq have "str_nat (nat (- i)) = ''-no_lower_case''" by (simp add: str_int_def)
    then have "CHR ''-'' \<in> set (str_nat (nat (- i)))" by simp
    then show False by (simp add: str_nat_no_minus)
  next
    case False
    with eq have "str_nat (nat i) = ''--no_lower_case''" by (simp add: str_int_def)
    then have "CHR ''-'' \<in> set (str_nat (nat i))" by simp
    then show False by (simp add: str_nat_no_minus)
  qed
qed

text \<open>
  Claim C10 as stated fails when a configured string is itself the flag: with
  \<^verbatim>\<open>data_folder = "--no_lower_case"\<close> and \<^verbatim>\<open>lower_case = False\<close> the command contains
  \<^verbatim>\<open>--no_lower_case\<close>, as the value of \<^verbatim>\<open>--data_root\<close>.
\<close>

theorem no_lower_case_flag_counterexample:
  "lower_case
     \<lparr>data_folder = ''--no_lower_case'', nemo_repo_path = ''NeMo'', vocab_size = 128,
      lower_case = False, nemo_executable = ''~/anaconda3/envs/nemo/python.exe'',
      tokenizer = ''spe'', spe_type = ''unigram''\<rparr> = False \<and>
   ''--no_lower_case'' \<in> set (get_command_to_run
     \<lparr>path_join = (\<lambda>a b. a @ ''/'' @ b), path_exists = (\<lambda>p. False),
      sys_executable = ''/usr/bin/python3''\<rparr>
     \<lparr>data_folder = ''--no_lower_case'', nemo_repo_path = ''NeMo'', vocab_size = 128,
      lower_case = False, nemo_executable = ''~/anaconda3/envs/nemo/python.exe'',
      tokenizer = ''spe'', spe_type = ''unigram''\<rparr>)"
  by (simp add: get_command_to_run_def Let_def)

text \<open>
  Claim C10, amended. The command built with \<^verbatim>\<open>lower_case = True\<close> is the command built
  with \<^verbatim>\<open>lower_case = False\<close>, which has twelve entries, followed by
  \<^verbatim>\<open>--no_lower_case\<close>: the flag is appended exactly when \<^verbatim>\<open>lower_case\<close> is true. So
  the command contains the flag when \<^verbatim>\<open>lower_case\<close> is true, and, unless one of the
  configured strings (the executable used, the script path, the corpus path,
  \<^verbatim>\<open>data_folder\<close>, \<^verbatim>\<open>tokenizer\<close>, \<^verbatim>\<open>spe_type\<close>) is itself that string, it contains the
  flag if and only if \<^verbatim>\<open>lower_case\<close> is true.
\<close>

theorem no_lower_case_flag_follows_lower_case:
  "get_command_to_run env (cfg\<lparr>lower_case := True\<rparr>) =
     get_command_to_run env (cfg\<lparr>lower_case := False\<rparr>) @ [''--no_lower_case''] \<and>
   length (get_command_to_run env (cfg\<lparr>lower_case := False\<rparr>)) = 12 \<and>
   (lower_case cfg \<longrightarrow> ''--no_lower_case'' \<in> set (get_command_to_run env cfg)) \<and>
   (''--no_lower_case'' \<notin>
      {if path_exists env (nemo_executable cfg) then nemo_executable cfg else sys_executable env,
       path_join env (nemo_repo_path cfg) ''scripts/tokenizers/process_asr_text_tokenizer.py'',
       path_join env (path_join env (data_folder cfg) ''text_corpus'') ''document.txt'',
       data_folder cfg, tokenizer cfg, spe_type cfg} \<longrightarrow>
    (''--no_lower_case'' \<in> set (get_command_to_run env cfg) \<longleftrightarrow> lower_case cfg))"
  using str_int_not_flag [of "vocab_size cfg"]
  by (auto simp: get_command_to_run_def Let_def)

text \<open>
  The theorem at the default arguments with a POSIX-style join and an executable that
  does not exist: with \<^verbatim>\<open>lower_case = True\<close> the flag ends the command, with
  \<^verbatim>\<open>lower_case = False\<close> it is not in it.
\<close>

theorem no_lower_case_flag_follows_lower_case_witness:
  "get_command_to_run
     \<lparr>path_join = (\<lambda>a b. a @ ''/'' @ b), path_exists = (\<lambda>p. False),
      sys_executable = ''/usr/bin/python3''\<rparr>
     \<lparr>data_folder = ''data'', nemo_repo_path = ''NeMo'', vocab_size = 128, lower_case = True,
      nemo_executable = ''~/anaconda3/envs/nemo/python.exe'', tokenizer = ''spe'',
      spe_type = ''unigram''\<rparr>
   = [''/usr/bin/python3'', ''NeMo/scripts/tokenizers/process_asr_text_tokenizer.py'',
      ''--data_file'', ''data/text_corpus/document.txt'', ''--vocab_size'', ''128'',
      ''--data_root'', ''data'', ''--tokenizer'', ''spe'', ''--spe_type'', ''unigram'',
      ''--no_lower_case''] \<and>
   ''--no_lower_case'' \<notin> set (get_command_to_run
     \<lparr>path_join = (\<lambda>a b. a @ ''/'' @ b), path_exists = (\<lambda>p. False),
      sys_executable = ''/usr/bin/python3''\<rparr>
     \<lparr>data_folder = ''data'', nemo_repo_path = ''NeMo'', vocab_size = 128, lower_case = False,
      nemo_executable = ''~/anaconda3/envs/nemo/python.exe'', tokenizer = ''spe'',
      spe_type = ''unigram''\<rparr>)"
proof -
  have v: "str_int 128 = ''128''"
    by (simp add: str_int_def str_nat.simps char_of_eq_iff take_bit_eq_mod)
  show ?thesis
    using no_lower_case_flag_follows_lower_case
      [of "\<lparr>path_join = (\<lambda>a b. a @ ''/'' @ b), path_exists = (\<lambda>p. False),
            sys_executable = ''/usr/bin/python3''\<rparr>"
          "\<lparr>data_folder = ''data'', nemo_repo_path = ''NeMo'', vocab_size = 128,
            lower_case = True, nemo_executable = ''~/anaconda3/envs/nemo/python.exe'',
            tokenizer = ''spe'', spe_type = ''unigram''\<rparr>"]
      no_lower_case_flag_follows_lower_case
      [of "\<lparr>path_join = (\<lambda>a b. a @ ''/'' @ b), path_exists = (\<lambda>p. False),
            sys_executable = ''/usr/bin/python3''\<rparr>"
          "\<lparr>data_folder = ''data'', nemo_repo_path = ''NeMo'', vocab_size = 128,
            lower_case = False, nemo_executable = ''~/anaconda3/envs/nemo/python.exe'',
            tokenizer = ''spe'', spe_type = ''unigram''\<rparr>"]
    by (simp add: get_command_to_run_def Let_def v)
qed

section \<open>RemoveExtraSymbols: the returned entry\<close>

text \<open>
  Claim C2 does not hold of the code: \<^verbatim>\<open>process_dataset_entry\<close> computes the cleaned
  text only to count the removed symbols and returns the entry it was given. For the
  entry \<^verbatim>\<open>{"text": "a,b."}\<close> with the ignore symbol \<^verbatim>\<open>,\<close> and the language
  \<^verbatim>\<open>armenian\<close>, the cleaned text is \<^verbatim>\<open>ab\<close> followed by the Armenian full stop
  (code point 8228), the metric is 1, and the returned entry still holds \<^verbatim>\<open>a,b.\<close>.
\<close>

theorem RemoveExtraSymbols_returns_text_as_it_was:
  "RemoveExtraSymbols_process_dataset_entry ascii_upper
     \<lparr>ignore_symbols = ustr '','', target_language = ustr ''armenian'', text_key = ''text''\<rparr>
     [(''text'', Str (ustr ''a,b.''))]
   = Inr [\<lparr>data = [(''text'', Str (ustr ''a,b.''))], metrics = Some 1\<rparr>] \<and>
   clear_text ascii_upper (ustr ''a,b.'') (ustr '','') (ustr ''armenian'') = ustr ''ab'' @ [8228] \<and>
   ustr ''a,b.'' \<noteq> ustr ''ab'' @ [8228]"
  by (simp add: RemoveExtraSymbols_process_dataset_entry_def clear_text_def ustr_def
        ascii_upper_def Let_def)

text \<open>
  Claim C8 does not hold of the code, for the same reason: the entry returned by the
  first pass is the input entry, so the second pass on it counts the same symbols again
  and reports 1, not 0.
\<close>

theorem RemoveExtraSymbols_second_pass_metric:
  "RemoveExtraSymbols_process_dataset_entry ascii_upper
     \<lparr>ignore_symbols = ustr '','', target_language = ustr ''armenian'', text_key = ''text''\<rparr>
     [(''text'', Str (ustr ''a,b.''))]
   = Inr [\<lparr>data = [(''text'', Str (ustr ''a,b.''))], metrics = Some 1\<rparr>] \<and>
   RemoveExtraSymbols_process_dataset_entry ascii_upper
     \<lparr>ignore_symbols = ustr '','', target_language = ustr ''armenian'', text_key = ''text''\<rparr>
     (data \<lparr>data = [(''text'', Str (ustr ''a,b.''))], metrics = Some 1\<rparr>)
   = Inr [\<lparr>data = [(''text'', Str (ustr ''a,b.''))], metrics = Some 1\<rparr>]"
  by (simp add: RemoveExtraSymbols_process_dataset_entry_def clear_text_def ustr_def
        ascii_upper_def Let_def)

end
